theory Spec2Isabelle
  imports Main
begin

section \<open>The store behind the connection\<close>

text \<open>
  \<^verbatim>\<open>ThreadSafeDatabaseManager\<close> (src/gui_qr_print_service.py, repeated verbatim in
  src/test_thread_safety.py) hands every query to the \<^verbatim>\<open>sqlite3\<close> library. The library is
  not part of the repository, so this section models what it does on the statement forms
  the repository issues: \<^verbatim>\<open>CREATE TABLE IF NOT EXISTS\<close>, \<^verbatim>\<open>INSERT INTO t (cols) VALUES (?, ...)\<close>,
  \<^verbatim>\<open>UPDATE t SET c = ? [WHERE c' = ?]\<close>, \<^verbatim>\<open>DELETE FROM t [WHERE c = ?]\<close>,
  \<^verbatim>\<open>SELECT cols FROM t [WHERE c = ?]\<close> and \<^verbatim>\<open>SELECT COUNT(*) FROM t [WHERE c = ?]\<close>.
  A query text is represented by its parse; \<open>Malformed\<close> stands for a text that SQLite
  rejects. \<^verbatim>\<open>LIKE\<close>, \<^verbatim>\<open>ORDER BY\<close>, \<^verbatim>\<open>LIMIT\<close> and sub-selects are outside the fragment.
  Values are \<^verbatim>\<open>NULL\<close>, 64-bit integers and text; reals and blobs are outside the
  fragment. A statement either fails and leaves the database as it was, or succeeds; I/O
  failures are not modelled.
\<close>

datatype sql_value = Null | Integer int | Text string

datatype default_value = NoDefault | DefaultValue sql_value | CurrentTimestamp

record column =
  col_name :: string
  col_type :: string
  not_null :: bool
  col_default :: default_value
  autoincrement :: bool

text \<open>Every row has a rowid; a column declared \<^verbatim>\<open>INTEGER PRIMARY KEY AUTOINCREMENT\<close>
  is an alias for it, the other columns are the cells.\<close>

record row =
  rowid :: int
  cells :: "(string \<times> sql_value) list"

record table =
  t_name :: string
  t_columns :: "column list"
  t_rows :: "row list"
  t_seq :: int

record connection =
  tables :: "table list"
  clock :: string
  closed :: bool

datatype where_clause = Unrestricted | ColumnEquals string

subsection \<open>Type affinity\<close>

text \<open>
  A column's declared type gives it an affinity. A value is converted to the affinity of
  its column when it is stored, and the bound value of \<^verbatim>\<open>c = ?\<close> is converted to the
  affinity of \<open>c\<close> before the comparison: text that reads as an integer becomes that
  integer in an integer or numeric column, and an integer becomes its decimal text in a
  text column. Declared types are taken in upper case, as the repository writes them.
  Text that reads as a real (\<^verbatim>\<open>'1.0'\<close>, \<^verbatim>\<open>'1e2'\<close>) is outside the fragment and stays text.
\<close>

datatype affinity = IntegerAffinity | TextAffinity | NumericAffinity | BlobAffinity

fun contains :: "string \<Rightarrow> string \<Rightarrow> bool" where
  "contains p [] = (p = [])"
| "contains p (x # xs) = (take (length p) (x # xs) = p \<or> contains p xs)"

definition affinity_of :: "string \<Rightarrow> affinity" where
  "affinity_of ty =
     (if contains ''INT'' ty then IntegerAffinity
      else if contains ''CHAR'' ty \<or> contains ''CLOB'' ty \<or> contains ''TEXT'' ty
        then TextAffinity
      else if contains ''BLOB'' ty \<or> ty = [] then BlobAffinity
      else NumericAffinity)"

definition max_rowid :: int where
  "max_rowid = 9223372036854775807"

definition min_integer :: int where
  "min_integer = - 9223372036854775808"

definition digit_value :: "char \<Rightarrow> nat option" where
  "digit_value ch =
     (let k = (of_char ch :: nat) in if 48 \<le> k \<and> k \<le> 57 then Some (k - 48) else None)"

fun parse_digits :: "nat \<Rightarrow> string \<Rightarrow> nat option" where
  "parse_digits acc [] = Some acc"
| "parse_digits acc (ch # rest) =
     (case digit_value ch of
        None \<Rightarrow> None
      | Some d \<Rightarrow> parse_digits (10 * acc + d) rest)"

definition is_space :: "char \<Rightarrow> bool" where
  "is_space ch = (let k = (of_char ch :: nat) in k = 32 \<or> (9 \<le> k \<and> k \<le> 13))"

definition trim :: "string \<Rightarrow> string" where
  "trim s = rev (dropWhile is_space (rev (dropWhile is_space s)))"

definition parse_int :: "string \<Rightarrow> int option" where
  "parse_int s =
     (case trim s of
        [] \<Rightarrow> None
      | ch # rest \<Rightarrow>
          if ch = CHR ''-'' then
            (if rest = [] then None else map_option (\<lambda>k. - int k) (parse_digits 0 rest))
          else if ch = CHR ''+'' then
            (if rest = [] then None else map_option int (parse_digits 0 rest))
          else map_option int (parse_digits 0 (ch # rest)))"

function show_nat :: "nat \<Rightarrow> string" where
  "show_nat k =
     (if k < 10 then [''0123456789'' ! k]
      else show_nat (k div 10) @ [''0123456789'' ! (k mod 10)])"
  by pat_completeness auto
termination
  by (relation "measure (\<lambda>k. k)") auto

definition show_int :: "int \<Rightarrow> string" where
  "show_int i = (if i < 0 then CHR ''-'' # show_nat (nat (- i)) else show_nat (nat i))"

definition apply_affinity :: "affinity \<Rightarrow> sql_value \<Rightarrow> sql_value" where
  "apply_affinity a v =
     (case v of
        Null \<Rightarrow> Null
      | Integer i \<Rightarrow> if a = TextAffinity then Text (show_int i) else Integer i
      | Text s \<Rightarrow>
          if a = IntegerAffinity \<or> a = NumericAffinity then
            (case parse_int s of
               None \<Rightarrow> Text s
             | Some i \<Rightarrow> if min_integer \<le> i \<and> i \<le> max_rowid then Integer i else Text s)
          else Text s)"

text \<open>Binding a Python integer outside the 64-bit range raises \<^verbatim>\<open>OverflowError\<close>.\<close>

definition storable :: "sql_value \<Rightarrow> bool" where
  "storable v = (case v of Integer i \<Rightarrow> min_integer \<le> i \<and> i \<le> max_rowid | _ \<Rightarrow> True)"

datatype statement =
    CreateTableIfNotExists string "column list"
  | InsertInto string "string list"
  | UpdateSet string string where_clause
  | DeleteFrom string where_clause
  | SelectFrom string "string list" where_clause
  | SelectCount string where_clause
  | Malformed

record cursor =
  lastrowid :: "int option"
  rowcount :: int
  fetched :: "sql_value list list"

definition find_table :: "string \<Rightarrow> table list \<Rightarrow> table option" where
  "find_table n ts = find (\<lambda>t. t_name t = n) ts"

definition store_table :: "table \<Rightarrow> table list \<Rightarrow> table list" where
  "store_table t ts = map (\<lambda>u. if t_name u = t_name t then t else u) ts"

definition has_column :: "table \<Rightarrow> string \<Rightarrow> bool" where
  "has_column t c = list_ex (\<lambda>col. col_name col = c) (t_columns t)"

definition is_rowid_alias :: "table \<Rightarrow> string \<Rightarrow> bool" where
  "is_rowid_alias t c = list_ex (\<lambda>col. col_name col = c \<and> autoincrement col) (t_columns t)"

definition is_not_null :: "table \<Rightarrow> string \<Rightarrow> bool" where
  "is_not_null t c = list_ex (\<lambda>col. col_name col = c \<and> not_null col) (t_columns t)"

definition column_affinity :: "table \<Rightarrow> string \<Rightarrow> affinity" where
  "column_affinity t c =
     (case find (\<lambda>col. col_name col = c) (t_columns t) of
        None \<Rightarrow> BlobAffinity
      | Some col \<Rightarrow> affinity_of (col_type col))"

definition cell :: "table \<Rightarrow> row \<Rightarrow> string \<Rightarrow> sql_value" where
  "cell t r c =
     (if is_rowid_alias t c then Integer (rowid r)
      else (case map_of (cells r) c of Some v \<Rightarrow> v | None \<Rightarrow> Null))"

fun where_columns :: "where_clause \<Rightarrow> string list" where
  "where_columns Unrestricted = []"
| "where_columns (ColumnEquals c) = [c]"

text \<open>\<^verbatim>\<open>c = ?\<close> is never true of a \<^verbatim>\<open>NULL\<close> on either side; the bound value takes
  the affinity of the column first.\<close>

fun matches :: "table \<Rightarrow> where_clause \<Rightarrow> sql_value list \<Rightarrow> row \<Rightarrow> bool" where
  "matches t Unrestricted ks r = True"
| "matches t (ColumnEquals c) ks r =
     (case ks of
        [k] \<Rightarrow> k \<noteq> Null \<and> cell t r c = apply_affinity (column_affinity t c) k
      | _ \<Rightarrow> False)"

definition fresh_cursor :: cursor where
  "fresh_cursor = \<lparr>lastrowid = None, rowcount = - 1, fetched = []\<rparr>"

definition no_such_table :: "string \<Rightarrow> string" where
  "no_such_table n = ''no such table: '' @ n"

definition no_such_column :: "string \<Rightarrow> string" where
  "no_such_column c = ''no such column: '' @ c"

definition bindings_mismatch :: string where
  "bindings_mismatch = ''Incorrect number of bindings supplied.''"

definition integer_overflow :: string where
  "integer_overflow = ''Python int too large to convert to SQLite INTEGER''"

text \<open>Binding the parameters of a prepared statement with \<open>k\<close> placeholders.\<close>

definition check_bindings :: "sql_value list \<Rightarrow> nat \<Rightarrow> string option" where
  "check_bindings ps k =
     (if length ps \<noteq> k then Some bindings_mismatch
      else if \<not> list_all storable ps then Some integer_overflow
      else None)"

definition exec_create :: "string \<Rightarrow> column list \<Rightarrow> sql_value list \<Rightarrow> connection
    \<Rightarrow> string + (connection \<times> cursor)" where
  "exec_create n cols ps c =
     (if ps \<noteq> [] then Inl bindings_mismatch
      else case find_table n (tables c) of
        Some t \<Rightarrow> Inr (c, fresh_cursor)
      | None \<Rightarrow>
          Inr (c\<lparr>tables := tables c @ [\<lparr>t_name = n, t_columns = cols, t_rows = [], t_seq = 0\<rparr>]\<rparr>,
               fresh_cursor))"

definition default_of :: "connection \<Rightarrow> column \<Rightarrow> sql_value" where
  "default_of c col =
     (case col_default col of
        NoDefault \<Rightarrow> Null
      | DefaultValue v \<Rightarrow> v
      | CurrentTimestamp \<Rightarrow> Text (clock c))"

definition new_cells :: "connection \<Rightarrow> table \<Rightarrow> (string \<times> sql_value) list
    \<Rightarrow> (string \<times> sql_value) list" where
  "new_cells c t given =
     map (\<lambda>col. (col_name col,
                 apply_affinity (affinity_of (col_type col))
                   (case map_of given (col_name col) of
                      Some v \<Rightarrow> v
                    | None \<Rightarrow> default_of c col)))
       (filter (\<lambda>col. \<not> autoincrement col) (t_columns t))"

definition given_rowid :: "table \<Rightarrow> (string \<times> sql_value) list \<Rightarrow> sql_value" where
  "given_rowid t given =
     (case find autoincrement (t_columns t) of
        None \<Rightarrow> Null
      | Some col \<Rightarrow>
          (case map_of given (col_name col) of
             None \<Rightarrow> Null
           | Some v \<Rightarrow> apply_affinity IntegerAffinity v))"

text \<open>\<^verbatim>\<open>AUTOINCREMENT\<close>: one more than the largest rowid the table has ever held; when
  that was the largest 64-bit integer the insert fails.\<close>

definition next_rowid :: "table \<Rightarrow> int" where
  "next_rowid t = fold max (map rowid (t_rows t)) (t_seq t) + 1"

definition add_row :: "connection \<Rightarrow> table \<Rightarrow> int \<Rightarrow> (string \<times> sql_value) list
    \<Rightarrow> connection \<times> cursor" where
  "add_row c t i vals =
     (c\<lparr>tables := store_table
          (t\<lparr>t_rows := t_rows t @ [\<lparr>rowid = i, cells = vals\<rparr>], t_seq := max (t_seq t) i\<rparr>)
          (tables c)\<rparr>,
      \<lparr>lastrowid = Some i, rowcount = 1, fetched = []\<rparr>)"

definition rowid_column :: "table \<Rightarrow> string" where
  "rowid_column t =
     (case find autoincrement (t_columns t) of None \<Rightarrow> ''rowid'' | Some col \<Rightarrow> col_name col)"

text \<open>The rowid is settled first, then the \<^verbatim>\<open>NOT NULL\<close> constraints are checked, then the
  uniqueness of the rowid.\<close>

definition exec_insert :: "string \<Rightarrow> string list \<Rightarrow> sql_value list \<Rightarrow> connection
    \<Rightarrow> string + (connection \<times> cursor)" where
  "exec_insert n cs ps c =
     (case find_table n (tables c) of
        None \<Rightarrow> Inl (no_such_table n)
      | Some t \<Rightarrow>
          (case find (\<lambda>x. \<not> has_column t x) cs of
             Some x \<Rightarrow> Inl (''table '' @ n @ '' has no column named '' @ x)
           | None \<Rightarrow>
               (case check_bindings ps (length cs) of
                  Some e \<Rightarrow> Inl e
                | None \<Rightarrow>
                 (let given = zip cs ps; vals = new_cells c t given;
                      store = (\<lambda>i.
                        case find (\<lambda>col. not_null col \<and> \<not> autoincrement col
                                     \<and> map_of vals (col_name col) = Some Null) (t_columns t) of
                          Some col \<Rightarrow>
                            Inl (''NOT NULL constraint failed: '' @ n @ ''.'' @ col_name col)
                        | None \<Rightarrow>
                            if i \<in> set (map rowid (t_rows t))
                            then Inl (''UNIQUE constraint failed: '' @ n @ ''.'' @ rowid_column t)
                            else Inr (add_row c t i vals))
                  in case given_rowid t given of
                       Text s \<Rightarrow> Inl ''datatype mismatch''
                     | Integer i \<Rightarrow> store i
                     | Null \<Rightarrow>
                         if max_rowid < next_rowid t then Inl ''database or disk is full''
                         else store (next_rowid t)))))"

definition set_cell :: "string \<Rightarrow> sql_value \<Rightarrow> row \<Rightarrow> row" where
  "set_cell col v r = r\<lparr>cells := map (\<lambda>(k, x). if k = col then (k, v) else (k, x)) (cells r)\<rparr>"

definition exec_update :: "string \<Rightarrow> string \<Rightarrow> where_clause \<Rightarrow> sql_value list \<Rightarrow> connection
    \<Rightarrow> string + (connection \<times> cursor)" where
  "exec_update n col w ps c =
     (case find_table n (tables c) of
        None \<Rightarrow> Inl (no_such_table n)
      | Some t \<Rightarrow>
          (case find (\<lambda>x. \<not> has_column t x) (col # where_columns w) of
             Some x \<Rightarrow> Inl (no_such_column x)
           | None \<Rightarrow>
               (case check_bindings ps (Suc (length (where_columns w))) of
                  Some e \<Rightarrow> Inl e
                | None \<Rightarrow>
                   (case ps of
                      [] \<Rightarrow> Inl bindings_mismatch
                    | p # ks \<Rightarrow>
                      (let v = apply_affinity (column_affinity t col) p;
                           hit = matches t w ks;
                           n_hit = int (length (filter hit (t_rows t)));
                           done = (\<lambda>rs. Inr (c\<lparr>tables := store_table (t\<lparr>t_rows := rs\<rparr>) (tables c)\<rparr>,
                                              fresh_cursor\<lparr>rowcount := n_hit\<rparr>))
                       in if n_hit = 0 then done (t_rows t)
                          else if is_rowid_alias t col then
                            (case v of
                               Integer i \<Rightarrow>
                                 (let rs = map (\<lambda>r. if hit r then r\<lparr>rowid := i\<rparr> else r) (t_rows t)
                                  in if distinct (map rowid rs) then done rs
                                     else Inl (''UNIQUE constraint failed: '' @ n @ ''.'' @ col))
                             | _ \<Rightarrow> Inl ''datatype mismatch'')
                          else if is_not_null t col \<and> v = Null
                            then Inl (''NOT NULL constraint failed: '' @ n @ ''.'' @ col)
                          else done (map (\<lambda>r. if hit r then set_cell col v r else r) (t_rows t)))))))"

definition exec_delete :: "string \<Rightarrow> where_clause \<Rightarrow> sql_value list \<Rightarrow> connection
    \<Rightarrow> string + (connection \<times> cursor)" where
  "exec_delete n w ps c =
     (case find_table n (tables c) of
        None \<Rightarrow> Inl (no_such_table n)
      | Some t \<Rightarrow>
          (case find (\<lambda>x. \<not> has_column t x) (where_columns w) of
             Some x \<Rightarrow> Inl (no_such_column x)
           | None \<Rightarrow>
               (case check_bindings ps (length (where_columns w)) of
                  Some e \<Rightarrow> Inl e
                | None \<Rightarrow>
                 Inr (c\<lparr>tables := store_table
                         (t\<lparr>t_rows := filter (\<lambda>r. \<not> matches t w ps r) (t_rows t)\<rparr>) (tables c)\<rparr>,
                      fresh_cursor\<lparr>rowcount := int (length (filter (matches t w ps) (t_rows t)))\<rparr>))))"

definition exec_select :: "string \<Rightarrow> string list \<Rightarrow> where_clause \<Rightarrow> sql_value list \<Rightarrow> connection
    \<Rightarrow> string + (connection \<times> cursor)" where
  "exec_select n cs w ps c =
     (case find_table n (tables c) of
        None \<Rightarrow> Inl (no_such_table n)
      | Some t \<Rightarrow>
          (case find (\<lambda>x. \<not> has_column t x) (cs @ where_columns w) of
             Some x \<Rightarrow> Inl (no_such_column x)
           | None \<Rightarrow>
               (case check_bindings ps (length (where_columns w)) of
                  Some e \<Rightarrow> Inl e
                | None \<Rightarrow>
                 Inr (c, fresh_cursor\<lparr>fetched :=
                        map (\<lambda>r. map (cell t r) cs) (filter (matches t w ps) (t_rows t))\<rparr>))))"

definition exec_count :: "string \<Rightarrow> where_clause \<Rightarrow> sql_value list \<Rightarrow> connection
    \<Rightarrow> string + (connection \<times> cursor)" where
  "exec_count n w ps c =
     (case find_table n (tables c) of
        None \<Rightarrow> Inl (no_such_table n)
      | Some t \<Rightarrow>
          (case find (\<lambda>x. \<not> has_column t x) (where_columns w) of
             Some x \<Rightarrow> Inl (no_such_column x)
           | None \<Rightarrow>
               (case check_bindings ps (length (where_columns w)) of
                  Some e \<Rightarrow> Inl e
                | None \<Rightarrow>
                 Inr (c, fresh_cursor\<lparr>fetched :=
                        [[Integer (int (length (filter (matches t w ps) (t_rows t))))]]\<rparr>))))"

text \<open>\<^verbatim>\<open>cursor.execute(query, params)\<close> on a new cursor. The query is \<open>None\<close> where
  the caller passed Python's \<^verbatim>\<open>None\<close> instead of a string.\<close>

definition execute :: "statement option \<Rightarrow> sql_value list \<Rightarrow> connection
    \<Rightarrow> string + (connection \<times> cursor)" where
  "execute query params c =
     (if closed c then Inl ''Cannot operate on a closed database.''
      else case query of
        None \<Rightarrow> Inl ''execute() argument 1 must be str, not None''
      | Some Malformed \<Rightarrow> Inl ''syntax error''
      | Some (CreateTableIfNotExists n cols) \<Rightarrow> exec_create n cols params c
      | Some (InsertInto n cs) \<Rightarrow> exec_insert n cs params c
      | Some (UpdateSet n col w) \<Rightarrow> exec_update n col w params c
      | Some (DeleteFrom n w) \<Rightarrow> exec_delete n w params c
      | Some (SelectFrom n cs w) \<Rightarrow> exec_select n cs w params c
      | Some (SelectCount n w) \<Rightarrow> exec_count n w params c)"

text \<open>\<^verbatim>\<open>conn.commit()\<close>: every statement above is applied at once, so committing only
  needs the connection to be open.\<close>

definition commit :: "connection \<Rightarrow> string + connection" where
  "commit c = (if closed c then Inl ''Cannot operate on a closed database.'' else Inr c)"

definition fetchall :: "cursor \<Rightarrow> sql_value list list" where
  "fetchall cur = fetched cur"

definition fetchone :: "cursor \<Rightarrow> sql_value list option" where
  "fetchone cur = (case fetched cur of [] \<Rightarrow> None | r # _ \<Rightarrow> Some r)"

definition close_connection :: "connection \<Rightarrow> connection" where
  "close_connection c = c\<lparr>closed := True\<rparr>"

definition connect :: "table list \<Rightarrow> string \<Rightarrow> connection" where
  "connect db now = \<lparr>tables = db, clock = now, closed = False\<rparr>"

section \<open>The persistence worker\<close>

text \<open>
  An operation request is the tuple \<^verbatim>\<open>(op_type, query, params)\<close> that
  \<^verbatim>\<open>_execute_operation\<close> puts on \<^verbatim>\<open>operation_queue\<close>; the shutdown signal is Python's
  \<^verbatim>\<open>None\<close> on the same queue. A reply is the tuple \<^verbatim>\<open>(status, result)\<close> on
  \<^verbatim>\<open>result_queue\<close>, the status being the string \<^verbatim>\<open>'success'\<close> or \<^verbatim>\<open>'error'\<close>.
\<close>

datatype payload =
    NoneV
  | IntV int
  | StrV string
  | RowV "sql_value list"
  | RowsV "sql_value list list"

type_synonym operation = "string \<times> statement option \<times> sql_value list"

type_synonym reply = "string \<times> payload"

datatype thread_state = Running | Finished

record manager =
  operation_queue :: "operation option list"
  result_queue :: "reply list"
  conn :: connection
  worker_thread :: thread_state

text \<open>The table definition of the \<^verbatim>\<open>init_db\<close> branch (lines 44 to 53).\<close>

definition print_history_columns :: "column list" where
  "print_history_columns =
     [\<lparr>col_name = ''id'', col_type = ''INTEGER'', not_null = False,
       col_default = NoDefault, autoincrement = True\<rparr>,
      \<lparr>col_name = ''url'', col_type = ''TEXT'', not_null = True,
       col_default = NoDefault, autoincrement = False\<rparr>,
      \<lparr>col_name = ''print_type'', col_type = ''TEXT'', not_null = False,
       col_default = NoDefault, autoincrement = False\<rparr>,
      \<lparr>col_name = ''qr_data'', col_type = ''TEXT'', not_null = False,
       col_default = NoDefault, autoincrement = False\<rparr>,
      \<lparr>col_name = ''timestamp'', col_type = ''DATETIME'', not_null = False,
       col_default = CurrentTimestamp, autoincrement = False\<rparr>,
      \<lparr>col_name = ''status'', col_type = ''TEXT'', not_null = False,
       col_default = DefaultValue (Text ''completed''), autoincrement = False\<rparr>]"

definition create_print_history :: statement where
  "create_print_history = CreateTableIfNotExists ''print_history'' print_history_columns"

text \<open>\<^verbatim>\<open>cursor.execute(query, params); conn.commit()\<close>, the two calls every writing
  branch makes; the cursor is kept for \<^verbatim>\<open>lastrowid\<close> and \<^verbatim>\<open>rowcount\<close>.\<close>

definition execute_commit :: "statement option \<Rightarrow> sql_value list \<Rightarrow> connection
    \<Rightarrow> string + (connection \<times> cursor)" where
  "execute_commit query params c =
     (case execute query params c of
        Inl e \<Rightarrow> Inl e
      | Inr (c1, cur) \<Rightarrow> (case commit c1 of Inl e \<Rightarrow> Inl e | Inr c2 \<Rightarrow> Inr (c2, cur)))"

text \<open>The body of the inner \<^verbatim>\<open>try\<close> (lines 42 to 85): \<open>Inl\<close> is the exception it
  raises, \<open>Inr\<close> the connection afterwards and the reply it put, if any. An
  \<^verbatim>\<open>op_type\<close> that no branch tests puts nothing.\<close>

definition dispatch :: "operation \<Rightarrow> connection \<Rightarrow> string + (connection \<times> reply option)" where
  "dispatch operation c =
     (case operation of (op_type, query, params) \<Rightarrow>
        if op_type = ''init_db'' then
          (case execute_commit (Some create_print_history) [] c of
             Inl e \<Rightarrow> Inl e
           | Inr (c', cur) \<Rightarrow> Inr (c', Some (''success'', NoneV)))
        else if op_type = ''insert'' then
          (case execute_commit query params c of
             Inl e \<Rightarrow> Inl e
           | Inr (c', cur) \<Rightarrow>
               Inr (c', Some (''success'',
                 (case lastrowid cur of None \<Rightarrow> NoneV | Some i \<Rightarrow> IntV i))))
        else if op_type = ''update'' then
          (case execute_commit query params c of
             Inl e \<Rightarrow> Inl e
           | Inr (c', cur) \<Rightarrow> Inr (c', Some (''success'', IntV (rowcount cur))))
        else if op_type = ''delete'' then
          (case execute_commit query params c of
             Inl e \<Rightarrow> Inl e
           | Inr (c', cur) \<Rightarrow> Inr (c', Some (''success'', IntV (rowcount cur))))
        else if op_type = ''select'' then
          (case execute query params c of
             Inl e \<Rightarrow> Inl e
           | Inr (c', cur) \<Rightarrow> Inr (c', Some (''success'', RowsV (fetchall cur))))
        else if op_type = ''select_one'' then
          (case execute query params c of
             Inl e \<Rightarrow> Inl e
           | Inr (c', cur) \<Rightarrow>
               Inr (c', Some (''success'',
                 (case fetchone cur of None \<Rightarrow> NoneV | Some r \<Rightarrow> RowV r))))
        else Inr (c, None))"

datatype control = Continue | Break

text \<open>One pass through the body of \<^verbatim>\<open>while True\<close> (lines 34 to 93). An empty queue is
  \<^verbatim>\<open>queue.Empty\<close> after the one-second poll, and the loop continues; \<^verbatim>\<open>None\<close> breaks; an
  exception of the inner \<^verbatim>\<open>try\<close> becomes the reply \<^verbatim>\<open>('error', str(e))\<close>. Every queued
  request is a triple, so unpacking it cannot raise and the outer handler of line 92 has
  nothing to catch.\<close>

definition loop_body :: "manager \<Rightarrow> control \<times> manager" where
  "loop_body m =
     (case operation_queue m of
        [] \<Rightarrow> (Continue, m)
      | None # rest \<Rightarrow> (Break, m\<lparr>operation_queue := rest\<rparr>)
      | Some operation # rest \<Rightarrow>
          (case dispatch operation (conn m) of
             Inl e \<Rightarrow>
               (Continue, m\<lparr>operation_queue := rest,
                            result_queue := result_queue m @ [(''error'', StrV e)]\<rparr>)
           | Inr (c', r) \<Rightarrow>
               (Continue, m\<lparr>operation_queue := rest, conn := c',
                            result_queue := result_queue m
                              @ (case r of None \<Rightarrow> [] | Some x \<Rightarrow> [x])\<rparr>)))"

text \<open>After the loop: \<^verbatim>\<open>conn.close()\<close>, and the thread ends.\<close>

definition finish :: "manager \<Rightarrow> manager" where
  "finish m = m\<lparr>conn := close_connection (conn m), worker_thread := Finished\<rparr>"

text \<open>\<^verbatim>\<open>_worker\<close> with nobody else touching the queues: the loop runs until it takes the
  shutdown signal. It polls an empty queue forever, so the model carries fuel, and \<open>None\<close>
  says that the thread is still running when the fuel is spent.\<close>

fun worker :: "nat \<Rightarrow> manager \<Rightarrow> manager option" where
  "worker 0 m = None"
| "worker (Suc fuel) m =
     (case loop_body m of
        (Break, m') \<Rightarrow> Some (finish m')
      | (Continue, m') \<Rightarrow> worker fuel m')"

text \<open>What the worker thread does when the scheduler lets it run one pass; a thread
  that has ended does nothing.\<close>

definition worker_iteration :: "manager \<Rightarrow> manager" where
  "worker_iteration m =
     (if worker_thread m = Finished then m
      else case loop_body m of
        (Break, m') \<Rightarrow> finish m'
      | (Continue, m') \<Rightarrow> m')"

section \<open>The operation gateway\<close>

text \<open>The two exceptions of \<^verbatim>\<open>_execute_operation\<close>: \<open>DatabaseError result\<close> is
  \<^verbatim>\<open>Exception(f"Database error: {result}")\<close> and \<open>Timeout\<close> is
  \<^verbatim>\<open>Exception("Database operation timed out")\<close>.\<close>

datatype exn = DatabaseError payload | Timeout

definition put_operation :: "operation option \<Rightarrow> manager \<Rightarrow> manager" where
  "put_operation x m = m\<lparr>operation_queue := operation_queue m @ [x]\<rparr>"

text \<open>\<^verbatim>\<open>result_queue.get(timeout=timeout)\<close> at the end of the wait, and the lines after
  it: an empty queue is \<^verbatim>\<open>queue.Empty\<close>, which becomes the timeout exception.\<close>

definition get_result :: "manager \<Rightarrow> (exn + payload) \<times> manager" where
  "get_result m =
     (case result_queue m of
        [] \<Rightarrow> (Inl Timeout, m)
      | (status, result) # rest \<Rightarrow>
          (if status = ''error'' then Inl (DatabaseError result) else Inr result,
           m\<lparr>result_queue := rest\<rparr>))"

text \<open>
  \<^verbatim>\<open>_execute_operation\<close> as one caller sees it. Time is not modelled; \<open>pace t\<close> is the
  number of passes the worker completes while the caller waits up to \<open>t\<close> time units.
  A \<^verbatim>\<open>get\<close> that returns before the wait is over is the same call under a slower pace.
\<close>

definition execute_operation :: "(nat \<Rightarrow> nat) \<Rightarrow> string \<Rightarrow> statement option \<Rightarrow> sql_value list
    \<Rightarrow> nat \<Rightarrow> manager \<Rightarrow> (exn + payload) \<times> manager" where
  "execute_operation pace op_type query params timeout m =
     get_result ((worker_iteration ^^ pace timeout)
       (put_operation (Some (op_type, query, params)) m))"

definition insert_op :: "(nat \<Rightarrow> nat) \<Rightarrow> statement option \<Rightarrow> sql_value list \<Rightarrow> manager
    \<Rightarrow> (exn + payload) \<times> manager" where
  "insert_op pace query params m = execute_operation pace ''insert'' query params 5 m"

definition update :: "(nat \<Rightarrow> nat) \<Rightarrow> statement option \<Rightarrow> sql_value list \<Rightarrow> manager
    \<Rightarrow> (exn + payload) \<times> manager" where
  "update pace query params m = execute_operation pace ''update'' query params 5 m"

definition delete :: "(nat \<Rightarrow> nat) \<Rightarrow> statement option \<Rightarrow> sql_value list \<Rightarrow> manager
    \<Rightarrow> (exn + payload) \<times> manager" where
  "delete pace query params m = execute_operation pace ''delete'' query params 5 m"

definition select :: "(nat \<Rightarrow> nat) \<Rightarrow> statement option \<Rightarrow> sql_value list option \<Rightarrow> manager
    \<Rightarrow> (exn + payload) \<times> manager" where
  "select pace query params m =
     execute_operation pace ''select'' query (case params of None \<Rightarrow> [] | Some ps \<Rightarrow> ps) 5 m"

definition select_one :: "(nat \<Rightarrow> nat) \<Rightarrow> statement option \<Rightarrow> sql_value list option \<Rightarrow> manager
    \<Rightarrow> (exn + payload) \<times> manager" where
  "select_one pace query params m =
     execute_operation pace ''select_one'' query (case params of None \<Rightarrow> [] | Some ps \<Rightarrow> ps) 5 m"

text \<open>\<^verbatim>\<open>close\<close>: the signal, then \<^verbatim>\<open>join(timeout=2)\<close>, which returns whether or not the
  thread has ended.\<close>

definition close :: "(nat \<Rightarrow> nat) \<Rightarrow> manager \<Rightarrow> manager" where
  "close pace m = (worker_iteration ^^ pace 2) (put_operation None m)"

text \<open>\<^verbatim>\<open>__init__\<close>: fresh queues, the worker started on a connection to the database
  file, then the \<^verbatim>\<open>init_db\<close> request (both arguments \<^verbatim>\<open>None\<close>; the branch reads
  neither). The journal mode that the worker sets on the connection changes nothing
  that the model observes.\<close>

definition started :: "table list \<Rightarrow> string \<Rightarrow> manager" where
  "started db now =
     \<lparr>operation_queue = [], result_queue = [], conn = connect db now, worker_thread = Running\<rparr>"

definition init :: "(nat \<Rightarrow> nat) \<Rightarrow> table list \<Rightarrow> string \<Rightarrow> (exn + payload) \<times> manager" where
  "init pace db now = execute_operation pace ''init_db'' None [] 5 (started db now)"

text \<open>The request that \<^verbatim>\<open>save_to_history\<close> of the dispatcher makes (lines 825 to 828).\<close>

definition insert_job :: "string list" where
  "insert_job = [''url'', ''print_type'', ''qr_data'', ''status'']"

definition job_request :: "string \<Rightarrow> string \<Rightarrow> string \<Rightarrow> operation" where
  "job_request url print_type qr_data =
     (''insert'', Some (InsertInto ''print_history'' insert_job),
      [Text url, Text print_type, Text qr_data, Text ''processing''])"

text \<open>\<^verbatim>\<open>save_to_history\<close> (lines 822 to 831) returns nothing: when the insert call
  returns it schedules a refresh of the history view, when the call raises it logs the
  exception, and neither is part of the manager.\<close>

definition save_to_history :: "(nat \<Rightarrow> nat) \<Rightarrow> string \<Rightarrow> string \<Rightarrow> string \<Rightarrow> manager
    \<Rightarrow> manager" where
  "save_to_history pace url print_type qr_data m =
     (case insert_op pace (Some (InsertInto ''print_history'' insert_job))
             [Text url, Text print_type, Text qr_data, Text ''processing''] m of
        (Inl e, m') \<Rightarrow> m'
      | (Inr result, m') \<Rightarrow> m')"

section \<open>Callers and the worker, interleaved\<close>

text \<open>
  Any number of threads call the gateway while the worker runs. An interleaving is a list
  of events: a thread runs the first line of \<^verbatim>\<open>_execute_operation\<close> (\<open>Submit\<close>), a thread's
  \<^verbatim>\<open>result_queue.get\<close> returns or times out (\<open>Collect\<close>), the worker makes one pass
  (\<open>Work\<close>), or \<^verbatim>\<open>close\<close> puts the shutdown signal (\<open>Signal\<close>). The queues of the
  standard library are FIFO and thread-safe, so each event is atomic.

  The program keeps no record of who asked what. To speak about it, the interleaved
  system carries two lists next to the queues that the program never reads: for each
  queued request the thread that submitted it, and for each queued reply the thread whose
  request it answers.
\<close>

type_synonym tid = nat

datatype event = Submit tid operation | Collect tid | Work | Signal

datatype observation =
    Ran operation "reply list"
  | Stopped
  | Got tid "tid option" "exn + payload"

record system =
  mgr :: manager
  askers :: "tid option list"
  addressees :: "tid option list"

fun step :: "event \<Rightarrow> system \<Rightarrow> system \<times> observation list" where
  "step (Submit t operation) s =
     (s\<lparr>mgr := put_operation (Some operation) (mgr s), askers := askers s @ [Some t]\<rparr>, [])"
| "step Signal s =
     (s\<lparr>mgr := put_operation None (mgr s), askers := askers s @ [None]\<rparr>, [])"
| "step Work s =
     (let m = mgr s; m' = worker_iteration m in
      if worker_thread m = Finished then (s, [])
      else case operation_queue m of
        [] \<Rightarrow> (s\<lparr>mgr := m'\<rparr>, [])
      | None # rest \<Rightarrow> (s\<lparr>mgr := m', askers := drop 1 (askers s)\<rparr>, [Stopped])
      | Some operation # rest \<Rightarrow>
          (let new = drop (length (result_queue m)) (result_queue m') in
           (s\<lparr>mgr := m', askers := drop 1 (askers s),
              addressees := addressees s
                @ map (\<lambda>r. (case askers s of [] \<Rightarrow> None | a # _ \<Rightarrow> a)) new\<rparr>,
            [Ran operation new])))"
| "step (Collect t) s =
     (case get_result (mgr s) of
        (r, m') \<Rightarrow>
          (s\<lparr>mgr := m', addressees := drop 1 (addressees s)\<rparr>,
           [Got t (case addressees s of [] \<Rightarrow> None | a # _ \<Rightarrow> a) r]))"

fun run :: "event list \<Rightarrow> system \<Rightarrow> system \<times> observation list" where
  "run [] s = (s, [])"
| "run (e # es) s =
     (case step e s of (s1, o1) \<Rightarrow> (case run es s1 of (s2, o2) \<Rightarrow> (s2, o1 @ o2)))"

definition observe :: "manager \<Rightarrow> system" where
  "observe m =
     \<lparr>mgr = m, askers = map (\<lambda>x. None) (operation_queue m),
      addressees = map (\<lambda>x. None) (result_queue m)\<rparr>"

text \<open>Each thread is inside at most one gateway call: it submits, then collects.\<close>

fun follows_protocol :: "tid list \<Rightarrow> event list \<Rightarrow> bool" where
  "follows_protocol waiting [] = True"
| "follows_protocol waiting (Submit t operation # es) =
     (t \<notin> set waiting \<and> follows_protocol (t # waiting) es)"
| "follows_protocol waiting (Collect t # es) =
     (t \<in> set waiting \<and> follows_protocol (removeAll t waiting) es)"
| "follows_protocol waiting (e # es) = follows_protocol waiting es"

text \<open>What was put on the operation queue, what the worker took from it, the replies
  it put, and what the callers got back, each in order.\<close>

fun enqueued :: "event list \<Rightarrow> operation option list" where
  "enqueued [] = []"
| "enqueued (Submit t operation # es) = Some operation # enqueued es"
| "enqueued (Signal # es) = None # enqueued es"
| "enqueued (e # es) = enqueued es"

fun taken :: "observation list \<Rightarrow> operation option list" where
  "taken [] = []"
| "taken (Ran operation new # os) = Some operation # taken os"
| "taken (Stopped # os) = None # taken os"
| "taken (ob # os) = taken os"


fun returned :: "observation list \<Rightarrow> (exn + payload) list" where
  "returned [] = []"
| "returned (Got t a r # os) = (if r = Inl Timeout then returned os else r # returned os)"
| "returned (ob # os) = returned os"

fun misdelivered :: "observation \<Rightarrow> bool" where
  "misdelivered (Got t (Some a) r) = (a \<noteq> t)"
| "misdelivered ob = False"

text \<open>What a caller makes of a reply (lines 103 to 105).\<close>

definition outcome :: "reply \<Rightarrow> exn + payload" where
  "outcome x = (case x of (status, result) \<Rightarrow>
     if status = ''error'' then Inl (DatabaseError result) else Inr result)"



fun insert_request :: "string \<Rightarrow> operation option \<Rightarrow> bool" where
  "insert_request n (Some (op_type, Some (InsertInto n' cs), params)) =
     (op_type = ''insert'' \<and> n' = n)"
| "insert_request n None = True"
| "insert_request n x = False"

section \<open>Reading the store\<close>

definition rows_of :: "string \<Rightarrow> connection \<Rightarrow> row list" where
  "rows_of n c = (case find_table n (tables c) of None \<Rightarrow> [] | Some t \<Rightarrow> t_rows t)"

definition definitions_of :: "string \<Rightarrow> connection \<Rightarrow> table list" where
  "definitions_of n c = filter (\<lambda>t. t_name t = n) (tables c)"

section \<open>Example states\<close>

definition example_table :: table where
  "example_table =
     \<lparr>t_name = ''print_history'', t_columns = print_history_columns, t_rows = [], t_seq = 0\<rparr>"

definition example_db :: "table list" where
  "example_db = [example_table]"

definition example_manager :: manager where
  "example_manager = started example_db ''2025-01-01 00:00:00''"

definition example_job :: "sql_value list" where
  "example_job = [Text ''https://example.com/a.pdf'', Text ''label'',
                  Text ''label:https://example.com/a.pdf'', Text ''processing'']"

definition example_row :: row where
  "example_row = \<lparr>rowid = 1, cells =
     [(''url'', Text ''https://example.com/a.pdf''), (''print_type'', Text ''label''),
      (''qr_data'', Text ''label:https://example.com/a.pdf''),
      (''timestamp'', Text ''2025-01-01 00:00:00''), (''status'', Text ''processing'')]\<rparr>"

definition example_table_after :: table where
  "example_table_after =
     \<lparr>t_name = ''print_history'', t_columns = print_history_columns,
      t_rows = [example_row], t_seq = 1\<rparr>"

definition example_db_after :: "table list" where
  "example_db_after = [example_table_after]"

definition example_manager_after :: manager where
  "example_manager_after = started example_db_after ''2025-01-01 00:00:00''"

definition example_db_completed :: "table list" where
  "example_db_completed =
     [example_table_after\<lparr>t_rows := [set_cell ''status'' (Text ''completed'') example_row]\<rparr>]"

definition example_db_emptied :: "table list" where
  "example_db_emptied = [example_table_after\<lparr>t_rows := []\<rparr>]"

definition count_jobs :: "statement option" where
  "count_jobs = Some (SelectCount ''print_history'' Unrestricted)"

definition set_status_by_url :: "statement option" where
  "set_status_by_url = Some (UpdateSet ''print_history'' ''status'' (ColumnEquals ''url''))"

definition delete_by_id :: "statement option" where
  "delete_by_id = Some (DeleteFrom ''print_history'' (ColumnEquals ''id''))"

definition example_row_defaulted :: row where
  "example_row_defaulted = \<lparr>rowid = 1, cells =
     [(''url'', Text ''https://example.com/a.pdf''), (''print_type'', Null),
      (''qr_data'', Null), (''timestamp'', Text ''2025-01-01 00:00:00''),
      (''status'', Text ''completed'')]\<rparr>"

definition example_db_defaulted :: "table list" where
  "example_db_defaulted = [example_table\<lparr>t_rows := [example_row_defaulted], t_seq := 1\<rparr>]"

text \<open>The connection after the statement of the \<^verbatim>\<open>init_db\<close> branch.\<close>

definition created :: "connection \<Rightarrow> connection" where
  "created c = (case execute (Some create_print_history) [] c of Inl e \<Rightarrow> c | Inr (c', cur) \<Rightarrow> c')"

definition empty_manager :: manager where
  "empty_manager = started [] ''2025-01-01 00:00:00''"

text \<open>Two threads call the gateway at the same time, and the second is the first to
  be woken.\<close>

definition race :: "tid \<Rightarrow> operation \<Rightarrow> tid \<Rightarrow> operation \<Rightarrow> event list" where
  "race t1 op1 t2 op2 = [Submit t1 op1, Submit t2 op2, Work, Collect t2, Work, Collect t1]"

definition insert_example_job :: operation where
  "insert_example_job = (''insert'', Some (InsertInto ''print_history'' insert_job), example_job)"



definition insert_second_job :: operation where
  "insert_second_job = (''insert'', Some (InsertInto ''print_history'' [''url'']),
     [Text ''https://example.com/b.pdf''])"



text \<open>The manager after a call that gave up waiting: its request is still queued.\<close>

definition insert_url_only :: "statement option" where
  "insert_url_only = Some (InsertInto ''print_history'' [''url''])"

definition abandoned_insert :: manager where
  "abandoned_insert =
     snd (insert_op (\<lambda>t. 0) (Some (InsertInto ''print_history'' insert_job)) example_job
            example_manager)"

definition abandoned_malformed :: manager where
  "abandoned_malformed = snd (insert_op (\<lambda>t. 0) (Some Malformed) [] example_manager)"

text \<open>What one request does to the connection when the worker serves it.\<close>

definition effect :: "operation option \<Rightarrow> connection \<Rightarrow> connection" where
  "effect x c =
     (case x of
        None \<Rightarrow> close_connection c
      | Some operation \<Rightarrow> (case dispatch operation c of Inl e \<Rightarrow> c | Inr (c', r) \<Rightarrow> c'))"

text \<open>The columns of a table, if it exists.\<close>

definition schema_of :: "string \<Rightarrow> connection \<Rightarrow> column list option" where
  "schema_of n c = map_option t_columns (find_table n (tables c))"

text \<open>A status update that finds its rows by their \<^verbatim>\<open>url\<close>, and the cells of the row that
  the request of \<^verbatim>\<open>save_to_history\<close> stores.\<close>

definition status_update :: "string \<Rightarrow> string \<Rightarrow> operation" where
  "status_update status url =
     (''update'', Some (UpdateSet ''print_history'' ''status'' (ColumnEquals ''url'')),
      [Text status, Text url])"

definition job_cells :: "connection \<Rightarrow> string \<Rightarrow> string \<Rightarrow> string
    \<Rightarrow> (string \<times> sql_value) list" where
  "job_cells c url print_type qr_data =
     [(''url'', Text url), (''print_type'', Text print_type), (''qr_data'', Text qr_data),
      (''timestamp'', apply_affinity NumericAffinity (Text (clock c))),
      (''status'', Text ''processing'')]"

text \<open>One thread queues a job and, after it, the update of that job; another thread's insert
  is queued between the two.\<close>

definition example_backlog :: "operation option list" where
  "example_backlog =
     [Some (job_request ''https://example.com/a.pdf'' ''label'' ''label:https://example.com/a.pdf''),
      Some insert_second_job,
      Some (status_update ''completed'' ''https://example.com/a.pdf'')]"

definition example_overtaking :: "event list" where
  "example_overtaking =
     [Submit 1 (job_request ''https://example.com/a.pdf'' ''label''
        ''label:https://example.com/a.pdf''),
      Collect 1, Submit 2 insert_second_job,
      Submit 1 (status_update ''completed'' ''https://example.com/a.pdf''),
      Work, Collect 2, Work, Work, Collect 1]"

section \<open>Facts about the store\<close>

lemma fold_max_init: "(a::int) \<le> fold max xs a"
proof (induction xs arbitrary: a)
  case Nil
  show ?case by simp
next
  case (Cons y ys)
  have "a \<le> max y a" by simp
  also have "\<dots> \<le> fold max ys (max y a)" by (rule Cons.IH)
  finally show ?case by simp
qed

lemma fold_max_ge: "(x::int) \<in> set xs \<Longrightarrow> x \<le> fold max xs a"
proof (induction xs arbitrary: a)
  case Nil
  then show ?case by simp
next
  case (Cons y ys)
  show ?case
  proof (cases "x = y")
    case True
    have "y \<le> max y a" by simp
    also have "\<dots> \<le> fold max ys (max y a)" by (rule fold_max_init)
    finally show ?thesis using True by simp
  next
    case False
    with Cons.prems have "x \<in> set ys" by simp
    then show ?thesis using Cons.IH by simp
  qed
qed

lemma next_rowid_fresh: "next_rowid t \<notin> set (map rowid (t_rows t))"
proof
  assume "next_rowid t \<in> set (map rowid (t_rows t))"
  then have "next_rowid t \<le> fold max (map rowid (t_rows t)) (t_seq t)"
    by (rule fold_max_ge)
  then show False by (simp add: next_rowid_def)
qed

lemma find_table_name: "find_table n ts = Some t \<Longrightarrow> t_name t = n"
  by (auto simp: find_table_def find_Some_iff)

lemma find_table_store_same:
  "find_table n ts = Some t \<Longrightarrow> t_name t' = n \<Longrightarrow> find_table n (store_table t' ts) = Some t'"
  by (induction ts) (auto simp: find_table_def store_table_def split: if_splits)

lemma exec_insert_Inr:
  assumes "exec_insert n cs ps c = Inr (c', cur)"
  shows "\<exists>t i. find_table n (tables c) = Some t
           \<and> add_row c t i (new_cells c t (zip cs ps)) = (c', cur)
           \<and> i \<notin> set (map rowid (t_rows t))"
  using assms next_rowid_fresh
  by (auto simp: exec_insert_def Let_def split: option.splits if_splits sql_value.splits)

lemma rows_after_add_row:
  assumes "find_table n (tables c) = Some t"
  shows "rows_of n (fst (add_row c t i vals)) = rows_of n c @ [\<lparr>rowid = i, cells = vals\<rparr>]"
proof -
  have "t_name t = n" using assms by (rule find_table_name)
  then have "find_table n (store_table
      (t\<lparr>t_rows := t_rows t @ [\<lparr>rowid = i, cells = vals\<rparr>], t_seq := max (t_seq t) i\<rparr>) (tables c))
    = Some (t\<lparr>t_rows := t_rows t @ [\<lparr>rowid = i, cells = vals\<rparr>], t_seq := max (t_seq t) i\<rparr>)"
    using find_table_store_same [OF assms] by simp
  then show ?thesis using assms by (simp add: rows_of_def add_row_def)
qed


lemma exec_create_open: "exec_create n cols ps c = Inr (c', cur) \<Longrightarrow> closed c' = closed c"
  by (auto simp: exec_create_def split: if_splits option.splits)

lemma exec_insert_open: "exec_insert n cs ps c = Inr (c', cur) \<Longrightarrow> closed c' = closed c"
  by (auto dest!: exec_insert_Inr simp: add_row_def)

lemma exec_update_open: "exec_update n col w ps c = Inr (c', cur) \<Longrightarrow> closed c' = closed c"
  by (auto simp: exec_update_def Let_def split: if_splits option.splits list.splits sql_value.splits)

lemma exec_delete_open: "exec_delete n w ps c = Inr (c', cur) \<Longrightarrow> closed c' = closed c"
  by (auto simp: exec_delete_def split: if_splits option.splits)

lemma exec_select_same: "exec_select n cs w ps c = Inr (c', cur) \<Longrightarrow> c' = c"
  by (auto simp: exec_select_def split: if_splits option.splits)

lemma exec_count_same: "exec_count n w ps c = Inr (c', cur) \<Longrightarrow> c' = c"
  by (auto simp: exec_count_def split: if_splits option.splits)

lemma execute_open:
  assumes "execute query params c = Inr (c', cur)"
  shows "\<not> closed c \<and> \<not> closed c'"
proof -
  from assms have nc: "\<not> closed c" by (auto simp: execute_def split: if_splits)
  from assms nc obtain st where q: "query = Some st"
    by (cases query) (auto simp: execute_def)
  have "closed c' = closed c"
    using assms nc q
    by (cases st)
      (auto simp: execute_def dest: exec_create_open exec_insert_open exec_update_open
        exec_delete_open exec_select_same exec_count_same)
  with nc show ?thesis by simp
qed

lemma execute_commit_eq: "execute_commit query params c = execute query params c"
proof (cases "execute query params c")
  case (Inl e)
  then show ?thesis by (simp add: execute_commit_def)
next
  case (Inr x)
  obtain c' cur where x: "x = (c', cur)" by (cases x)
  with Inr have "\<not> closed c'" using execute_open by blast
  with Inr x show ?thesis by (simp add: execute_commit_def commit_def)
qed

section \<open>Facts about the worker and the gateway\<close>

lemma worker_iteration_idle: "operation_queue m = [] \<Longrightarrow> worker_iteration m = m"
  by (simp add: worker_iteration_def loop_body_def)

lemma worker_iteration_finished: "worker_thread m = Finished \<Longrightarrow> worker_iteration m = m"
  by (simp add: worker_iteration_def)

lemma worker_iterations_idle: "operation_queue m = [] \<Longrightarrow> (worker_iteration ^^ k) m = m"
  by (induction k) (simp_all add: worker_iteration_idle)

lemma worker_iterations_finished:
  "worker_thread m = Finished \<Longrightarrow> (worker_iteration ^^ k) m = m"
  by (induction k) (simp_all add: worker_iteration_finished)

lemma worker_iteration_serves:
  assumes "worker_thread m = Running" and "operation_queue m = Some operation # rest"
  shows "worker_iteration m =
    (case dispatch operation (conn m) of
       Inl e \<Rightarrow> m\<lparr>operation_queue := rest,
                  result_queue := result_queue m @ [(''error'', StrV e)]\<rparr>
     | Inr (c', r) \<Rightarrow> m\<lparr>operation_queue := rest, conn := c',
                  result_queue := result_queue m @ (case r of None \<Rightarrow> [] | Some x \<Rightarrow> [x])\<rparr>)"
  using assms by (simp add: worker_iteration_def loop_body_def split: sum.splits prod.splits)

lemma operation_queue_after_serving:
  assumes "worker_thread m = Running" and "operation_queue m = Some operation # rest"
  shows "operation_queue (worker_iteration m) = rest"
  using assms by (simp add: worker_iteration_serves split: sum.splits prod.splits)

lemma execute_operation_one_pass:
  assumes "worker_thread m = Running" and "operation_queue m = []" and "0 < pace timeout"
  shows "execute_operation pace op_type query params timeout m =
    get_result (worker_iteration (put_operation (Some (op_type, query, params)) m))"
proof -
  let ?m1 = "put_operation (Some (op_type, query, params)) m"
  from assms(3) obtain k where k: "pace timeout = Suc k" by (cases "pace timeout") auto
  have q: "operation_queue ?m1 = [Some (op_type, query, params)]"
    and r: "worker_thread ?m1 = Running"
    using assms by (simp_all add: put_operation_def)
  have "operation_queue (worker_iteration ?m1) = []"
    using r q by (rule operation_queue_after_serving)
  then have "(worker_iteration ^^ k) (worker_iteration ?m1) = worker_iteration ?m1"
    by (rule worker_iterations_idle)
  then show ?thesis by (simp add: execute_operation_def k funpow_swap1)
qed

lemma dispatch_insert:
  "dispatch (''insert'', query, params) c =
    (case execute query params c of
       Inl e \<Rightarrow> Inl e
     | Inr (c', cur) \<Rightarrow> Inr (c', Some (''success'',
         (case lastrowid cur of None \<Rightarrow> NoneV | Some i \<Rightarrow> IntV i))))"
  by (simp add: dispatch_def execute_commit_eq)

lemma call_answered:
  assumes "worker_thread m = Running" and "operation_queue m = []" and "result_queue m = []"
    and "0 < pace timeout"
    and "dispatch (op_type, query, params) (conn m) = Inr (c', Some (''success'', result))"
  shows "execute_operation pace op_type query params timeout m = (Inr result, m\<lparr>conn := c'\<rparr>)"
proof -
  let ?op = "(op_type, query, params)"
  have "worker_iteration (put_operation (Some ?op) m)
      = (put_operation (Some ?op) m)\<lparr>operation_queue := [], conn := c',
          result_queue := [(''success'', result)]\<rparr>"
    using assms by (simp add: worker_iteration_serves put_operation_def)
  then show ?thesis
    using assms by (simp add: execute_operation_one_pass get_result_def put_operation_def)
qed

lemma dispatch_update:
  "dispatch (''update'', query, params) c =
    (case execute query params c of
       Inl e \<Rightarrow> Inl e
     | Inr (c', cur) \<Rightarrow> Inr (c', Some (''success'', IntV (rowcount cur))))"
  by (simp add: dispatch_def execute_commit_eq)

lemma insert_row_cells:
  assumes "execute (Some (InsertInto n cs)) ps c = Inr (c', cur)"
    and "find_table n (tables c) = Some t"
  shows "\<exists>i. lastrowid cur = Some i
           \<and> rows_of n c' = rows_of n c @ [\<lparr>rowid = i, cells = new_cells c t (zip cs ps)\<rparr>]"
proof -
  from assms(1) have ex: "exec_insert n cs ps c = Inr (c', cur)"
    by (auto simp: execute_def split: if_splits)
  from exec_insert_Inr [OF ex] assms(2) obtain i where
    a: "add_row c t i (new_cells c t (zip cs ps)) = (c', cur)" by auto
  from a have c': "c' = fst (add_row c t i (new_cells c t (zip cs ps)))"
    and cur: "lastrowid cur = Some i"
    by (auto simp: add_row_def)
  have "rows_of n c' = rows_of n c @ [\<lparr>rowid = i, cells = new_cells c t (zip cs ps)\<rparr>]"
    unfolding c' using assms(2) by (rule rows_after_add_row)
  with cur show ?thesis by blast
qed

lemma map_of_zip_absent: "k \<notin> set cs \<Longrightarrow> map_of (zip cs ps) k = None"
  by (auto simp: map_of_eq_None_iff dest: set_zip_leftD)

lemma text_affinity: "affinity_of ''TEXT'' = TextAffinity"
  by (simp add: affinity_of_def)

lemma numeric_affinity: "affinity_of ''DATETIME'' = NumericAffinity"
  by (simp add: affinity_of_def)

lemma text_stays_text: "apply_affinity TextAffinity (Text s) = Text s"
  by (simp add: apply_affinity_def)

lemma status_of_new_cells:
  assumes "t_columns t = print_history_columns"
  shows "cell t \<lparr>rowid = i, cells = new_cells c t given\<rparr> ''status''
     = apply_affinity TextAffinity
         (case map_of given ''status'' of Some v \<Rightarrow> v | None \<Rightarrow> Text ''completed'')"
  using assms
  by (simp add: cell_def is_rowid_alias_def new_cells_def print_history_columns_def default_of_def
      text_affinity split: option.splits)

lemma created_eq:
  "created c =
    (if closed c then c
     else case find_table ''print_history'' (tables c) of
       Some t \<Rightarrow> c
     | None \<Rightarrow> c\<lparr>tables := tables c @
         [\<lparr>t_name = ''print_history'', t_columns = print_history_columns,
           t_rows = [], t_seq = 0\<rparr>]\<rparr>)"
  by (simp add: created_def execute_def create_print_history_def exec_create_def
      split: option.splits)

lemma created_open: "closed (created c) = closed c"
  by (simp add: created_eq split: option.splits)

lemma find_table_append:
  "find_table n (ts @ us) = (case find_table n ts of Some t \<Rightarrow> Some t | None \<Rightarrow> find_table n us)"
  by (induction ts) (simp_all add: find_table_def)

lemma find_table_single: "find_table n [t] = (if t_name t = n then Some t else None)"
  by (simp add: find_table_def)

lemma created_twice: "created (created c) = created c"
proof (cases "find_table ''print_history'' (tables c)")
  case None
  then show ?thesis by (simp add: created_eq find_table_append find_table_single)
next
  case (Some t)
  then show ?thesis by (simp add: created_eq)
qed

lemma definitions_when_absent:
  "find_table n (tables c) = None \<Longrightarrow> definitions_of n c = []"
  by (auto simp: find_table_def definitions_of_def find_None_iff filter_empty_conv)

lemma definitions_when_present:
  "find_table n (tables c) = Some t \<Longrightarrow> 1 \<le> length (definitions_of n c)"
proof -
  assume "find_table n (tables c) = Some t"
  then have "t \<in> set (definitions_of n c)"
    by (auto simp: find_table_def definitions_of_def find_Some_iff)
  then show ?thesis by (cases "definitions_of n c") simp_all
qed

lemma created_definitions:
  assumes "\<not> closed c"
  shows "length (definitions_of ''print_history'' (created c))
    = max 1 (length (definitions_of ''print_history'' c))"
proof (cases "find_table ''print_history'' (tables c)")
  case None
  then have "definitions_of ''print_history'' c = []" by (rule definitions_when_absent)
  then show ?thesis using None assms by (simp add: created_eq definitions_of_def)
next
  case (Some t)
  then have "1 \<le> length (definitions_of ''print_history'' c)" by (rule definitions_when_present)
  then show ?thesis using Some assms by (simp add: created_eq)
qed

lemma created_rows: "rows_of n (created c) = rows_of n c"
proof (cases "find_table ''print_history'' (tables c)")
  case None
  then show ?thesis
    by (cases "find_table n (tables c)")
      (auto simp: created_eq rows_of_def find_table_append find_table_single)
next
  case (Some t)
  then show ?thesis by (simp add: created_eq)
qed

lemma dispatch_init:
  assumes "\<not> closed c"
  shows "dispatch (''init_db'', query, params) c = Inr (created c, Some (''success'', NoneV))"
proof -
  have "\<exists>c' cur. execute (Some create_print_history) [] c = Inr (c', cur)"
    using assms
    by (cases "find_table ''print_history'' (tables c)")
      (simp_all add: execute_def create_print_history_def exec_create_def)
  then obtain c' cur where e: "execute (Some create_print_history) [] c = Inr (c', cur)"
    by blast
  then have "created c = c'" by (simp add: created_def)
  with e show ?thesis by (simp add: dispatch_def execute_commit_eq)
qed

lemma init_requests_served:
  assumes "worker_thread m = Running" and "\<not> closed (conn m)"
  shows "(worker_iteration ^^ k)
      (m\<lparr>operation_queue := replicate k (Some (''init_db'', query, params)) @ rest,
         result_queue := replies\<rparr>)
    = m\<lparr>operation_queue := rest,
        result_queue := replies @ replicate k (''success'', NoneV),
        conn := (created ^^ k) (conn m)\<rparr>"
  using assms
proof (induction k arbitrary: m replies)
  case 0
  then show ?case by simp
next
  case (Suc k)
  let ?m1 = "m\<lparr>conn := created (conn m)\<rparr>"
  have "worker_iteration
      (m\<lparr>operation_queue := Some (''init_db'', query, params)
            # replicate k (Some (''init_db'', query, params)) @ rest,
         result_queue := replies\<rparr>)
      = ?m1\<lparr>operation_queue := replicate k (Some (''init_db'', query, params)) @ rest,
         result_queue := replies @ [(''success'', NoneV)]\<rparr>"
    using Suc.prems by (simp add: worker_iteration_serves dispatch_init)
  moreover have "(worker_iteration ^^ k)
      (?m1\<lparr>operation_queue := replicate k (Some (''init_db'', query, params)) @ rest,
         result_queue := replies @ [(''success'', NoneV)]\<rparr>)
    = ?m1\<lparr>operation_queue := rest,
        result_queue := (replies @ [(''success'', NoneV)]) @ replicate k (''success'', NoneV),
        conn := (created ^^ k) (conn ?m1)\<rparr>"
    using Suc.prems by (intro Suc.IH) (simp_all add: created_open)
  ultimately show ?case
    by (simp add: funpow_swap1 replicate_append_same)
qed

lemma created_many: "(created ^^ Suc k) c = created c"
  by (induction k) (simp_all add: created_twice)

lemma worker_iteration_stops:
  assumes "worker_thread m = Running" and "operation_queue m = None # rest"
  shows "worker_iteration m
    = m\<lparr>operation_queue := rest, conn := close_connection (conn m), worker_thread := Finished\<rparr>"
  using assms by (simp add: worker_iteration_def loop_body_def finish_def)

lemma worker_polls_forever: "operation_queue m = [] \<Longrightarrow> worker fuel m = None"
  by (induction fuel) (simp_all add: loop_body_def)

lemma signalled_worker_stops:
  assumes "worker_thread m = Running" and "operation_queue m = None # rest" and "0 < k"
  shows "(worker_iteration ^^ k) m
    = m\<lparr>operation_queue := rest, conn := close_connection (conn m), worker_thread := Finished\<rparr>"
proof -
  from assms(3) obtain j where k: "k = Suc j" by (cases k) auto
  let ?m' = "m\<lparr>operation_queue := rest, conn := close_connection (conn m),
               worker_thread := Finished\<rparr>"
  have "worker_iteration m = ?m'" using assms(1,2) by (rule worker_iteration_stops)
  moreover have "(worker_iteration ^^ j) ?m' = ?m'"
    by (rule worker_iterations_finished) simp
  ultimately show ?thesis by (simp add: k funpow_swap1)
qed

section \<open>Facts about interleavings\<close>

lemma run_append:
  "run (es @ fs) s =
    (case run es s of (s1, o1) \<Rightarrow> (case run fs s1 of (s2, o2) \<Rightarrow> (s2, o1 @ o2)))"
  by (induction es arbitrary: s) (auto split: prod.splits)

lemma get_result_Cons:
  "result_queue m = x # rest \<Longrightarrow> get_result m = (outcome x, m\<lparr>result_queue := rest\<rparr>)"
  by (cases x) (simp add: get_result_def outcome_def)

lemma race_start:
  assumes "worker_thread m = Running" and "operation_queue m = []" and "result_queue m = []"
    and "dispatch op1 (conn m) = Inr (c1, Some r1)"
  shows "run [Submit t1 op1, Submit t2 op2, Work, Collect t2] (observe m)
    = (\<lparr>mgr = m\<lparr>operation_queue := [Some op2], conn := c1\<rparr>,
        askers = [Some t2], addressees = []\<rparr>,
       [Ran op1 [r1], Got t2 (Some t1) (outcome r1)])"
proof -
  let ?m2 = "m\<lparr>operation_queue := [Some op1, Some op2]\<rparr>"
  have w: "worker_iteration ?m2 = m\<lparr>operation_queue := [Some op2], conn := c1, result_queue := [r1]\<rparr>"
    using assms by (simp add: worker_iteration_serves)
  have g: "get_result (m\<lparr>operation_queue := [Some op2], conn := c1, result_queue := [r1]\<rparr>)
      = (outcome r1, m\<lparr>operation_queue := [Some op2], conn := c1, result_queue := []\<rparr>)"
    by (simp add: get_result_Cons)
  show ?thesis
    using assms(1,2,3) by (simp add: observe_def put_operation_def w g Let_def)
qed

lemma taken_append: "taken (xs @ ys) = taken xs @ taken ys"
  by (induction xs rule: taken.induct) simp_all



lemma enqueued_Cons: "enqueued (e # es) = enqueued [e] @ enqueued es"
  by (cases e) simp_all



lemma step_order:
  "operation_queue (mgr s) @ enqueued [e]
    = taken (snd (step e s)) @ operation_queue (mgr (fst (step e s)))"
proof (cases e)
  case (Submit t operation)
  then show ?thesis by (simp add: put_operation_def)
next
  case (Collect t)
  then show ?thesis by (simp add: get_result_def split: prod.splits list.splits)
next
  case Work
  show ?thesis
  proof (cases "worker_thread (mgr s)")
    case Finished
    with Work show ?thesis by simp
  next
    case Running
    show ?thesis
    proof (cases "operation_queue (mgr s)")
      case Nil
      with Work Running show ?thesis by (simp add: Let_def worker_iteration_idle)
    next
      case (Cons x rest)
      show ?thesis
      proof (cases x)
        case None
        with Work Running Cons show ?thesis by (simp add: Let_def worker_iteration_stops)
      next
        case (Some operation)
        with Work Running Cons show ?thesis
          by (simp add: Let_def operation_queue_after_serving)
      qed
    qed
  qed
next
  case Signal
  then show ?thesis by (simp add: put_operation_def)
qed


lemma run_order:
  "operation_queue (mgr s) @ enqueued tr
    = taken (snd (run tr s)) @ operation_queue (mgr (fst (run tr s)))"
proof (induction tr arbitrary: s)
  case Nil
  show ?case by simp
next
  case (Cons e es)
  obtain s1 o1 where st: "step e s = (s1, o1)" by (cases "step e s")
  obtain s2 o2 where ru: "run es s1 = (s2, o2)" by (cases "run es s1")
  have "operation_queue (mgr s) @ enqueued (e # es)
      = (operation_queue (mgr s) @ enqueued [e]) @ enqueued es"
    using enqueued_Cons [of e es] by simp
  also have "\<dots> = (taken o1 @ operation_queue (mgr s1)) @ enqueued es"
    using step_order [of s e] st by simp
  also have "\<dots> = taken o1 @ taken o2 @ operation_queue (mgr s2)"
    using Cons.IH [of s1] ru by simp
  finally show ?case using st ru by (simp add: taken_append)
qed



lemma insert_table_after:
  assumes "execute (Some (InsertInto n cs)) ps c = Inr (c', cur)"
    and "find_table n (tables c) = Some t"
  shows "\<exists>i. lastrowid cur = Some i
    \<and> find_table n (tables c') = Some (t\<lparr>t_rows := t_rows t
          @ [\<lparr>rowid = i, cells = new_cells c t (zip cs ps)\<rparr>], t_seq := max (t_seq t) i\<rparr>)
    \<and> i \<notin> set (map rowid (t_rows t))"
proof -
  from assms(1) have ex: "exec_insert n cs ps c = Inr (c', cur)"
    by (auto simp: execute_def split: if_splits)
  from exec_insert_Inr [OF ex] assms(2) obtain i where
    a: "add_row c t i (new_cells c t (zip cs ps)) = (c', cur)"
    and f: "i \<notin> set (map rowid (t_rows t))" by auto
  have tn: "t_name t = n" using assms(2) by (rule find_table_name)
  have "find_table n (store_table (t\<lparr>t_rows := t_rows t
          @ [\<lparr>rowid = i, cells = new_cells c t (zip cs ps)\<rparr>], t_seq := max (t_seq t) i\<rparr>) (tables c))
      = Some (t\<lparr>t_rows := t_rows t
          @ [\<lparr>rowid = i, cells = new_cells c t (zip cs ps)\<rparr>], t_seq := max (t_seq t) i\<rparr>)"
    using find_table_store_same [OF assms(2)] tn by simp
  with a f show ?thesis by (auto simp: add_row_def)
qed










subsection \<open>Requests take effect in the order they were queued\<close>

lemma step_effects:
  "conn (mgr (fst (step e s))) = fold effect (taken (snd (step e s))) (conn (mgr s))"
proof (cases e)
  case (Submit t operation)
  then show ?thesis by (simp add: put_operation_def)
next
  case (Collect t)
  then show ?thesis by (simp add: get_result_def split: prod.splits list.splits)
next
  case Signal
  then show ?thesis by (simp add: put_operation_def)
next
  case Work
  show ?thesis
  proof (cases "worker_thread (mgr s)")
    case Finished
    with Work show ?thesis by simp
  next
    case Running
    show ?thesis
    proof (cases "operation_queue (mgr s)")
      case Nil
      with Work Running show ?thesis by (simp add: Let_def worker_iteration_idle)
    next
      case (Cons x rest)
      show ?thesis
      proof (cases x)
        case None
        with Work Running Cons show ?thesis
          by (simp add: Let_def worker_iteration_stops effect_def)
      next
        case (Some operation)
        with Work Running Cons show ?thesis
          by (simp add: Let_def worker_iteration_serves effect_def split: sum.splits prod.splits)
      qed
    qed
  qed
qed

lemma run_effects:
  "conn (mgr (fst (run tr s))) = fold effect (taken (snd (run tr s))) (conn (mgr s))"
proof (induction tr arbitrary: s)
  case Nil
  show ?case by simp
next
  case (Cons e es)
  obtain s1 o1 where st: "step e s = (s1, o1)" by (cases "step e s")
  obtain s2 o2 where ru: "run es s1 = (s2, o2)" by (cases "run es s1")
  have "conn (mgr s2) = fold effect (taken o2) (conn (mgr s1))"
    using Cons.IH [of s1] ru by simp
  also have "conn (mgr s1) = fold effect (taken o1) (conn (mgr s))"
    using step_effects [of e s] st by simp
  finally show ?case using st ru by (simp add: taken_append)
qed

lemma serve_insert_keeps:
  assumes "worker_thread m = Running" and "operation_queue m = Some operation # rest"
    and "insert_request n (Some operation)"
  shows "\<exists>c' new more. worker_iteration m
      = m\<lparr>operation_queue := rest, conn := c', result_queue := result_queue m @ new\<rparr>
    \<and> rows_of n c' = rows_of n (conn m) @ more
    \<and> schema_of n c' = schema_of n (conn m) \<and> closed c' = closed (conn m)"
proof -
  from assms(3) obtain cs ps where
    op: "operation = (''insert'', Some (InsertInto n cs), ps)"
    by (auto elim!: insert_request.elims)
  show ?thesis
  proof (cases "execute (Some (InsertInto n cs)) ps (conn m)")
    case (Inl e)
    then have "worker_iteration m = m\<lparr>operation_queue := rest, conn := conn m,
        result_queue := result_queue m @ [(''error'', StrV e)]\<rparr>"
      using assms(1,2) op by (simp add: worker_iteration_serves dispatch_insert)
    moreover have "rows_of n (conn m) = rows_of n (conn m) @ []" by simp
    ultimately show ?thesis by blast
  next
    case (Inr x)
    obtain c' cur where x: "x = (c', cur)" by (cases x)
    note ex = Inr [unfolded x]
    from ex have "exec_insert n cs ps (conn m) = Inr (c', cur)"
      by (auto simp: execute_def split: if_splits)
    from exec_insert_Inr [OF this] obtain t where t: "find_table n (tables (conn m)) = Some t"
      by blast
    from insert_table_after [OF ex t] obtain i where
      id: "lastrowid cur = Some i"
      and t': "find_table n (tables c') = Some (t\<lparr>t_rows := t_rows t
          @ [\<lparr>rowid = i, cells = new_cells (conn m) t (zip cs ps)\<rparr>], t_seq := max (t_seq t) i\<rparr>)"
      by blast
    have "worker_iteration m = m\<lparr>operation_queue := rest, conn := c',
        result_queue := result_queue m @ [(''success'', IntV i)]\<rparr>"
      using assms(1,2) op ex id by (simp add: worker_iteration_serves dispatch_insert)
    moreover have "rows_of n c' = rows_of n (conn m)
        @ [\<lparr>rowid = i, cells = new_cells (conn m) t (zip cs ps)\<rparr>]"
      using t t' by (simp add: rows_of_def)
    moreover have "schema_of n c' = schema_of n (conn m)"
      using t t' by (simp add: schema_of_def)
    moreover have "closed c' = closed (conn m)" using execute_open [OF ex] by simp
    ultimately show ?thesis by blast
  qed
qed

lemma serve_inserts:
  assumes "worker_thread m = Running" and "operation_queue m = map Some mid @ rest"
    and "list_all (insert_request n) (map Some mid)"
  shows "\<exists>c' new more. (worker_iteration ^^ length mid) m
      = m\<lparr>operation_queue := rest, conn := c', result_queue := result_queue m @ new\<rparr>
    \<and> rows_of n c' = rows_of n (conn m) @ more
    \<and> schema_of n c' = schema_of n (conn m) \<and> closed c' = closed (conn m)"
  using assms
proof (induction mid arbitrary: m)
  case Nil
  have "m = m\<lparr>operation_queue := rest, conn := conn m, result_queue := result_queue m @ []\<rparr>"
    using Nil.prems(2) by simp
  moreover have "rows_of n (conn m) = rows_of n (conn m) @ []" by simp
  ultimately show ?case by (metis funpow_0 list.size(3))
next
  case (Cons x xs)
  have q: "operation_queue m = Some x # (map Some xs @ rest)" using Cons.prems(2) by simp
  have ir: "insert_request n (Some x)" using Cons.prems(3) by simp
  from serve_insert_keeps [OF Cons.prems(1) q ir] obtain c1 new1 more1 where
    w1: "worker_iteration m = m\<lparr>operation_queue := map Some xs @ rest, conn := c1,
        result_queue := result_queue m @ new1\<rparr>"
    and r1: "rows_of n c1 = rows_of n (conn m) @ more1"
    and s1: "schema_of n c1 = schema_of n (conn m)" and o1: "closed c1 = closed (conn m)"
    by blast
  let ?m1 = "m\<lparr>operation_queue := map Some xs @ rest, conn := c1,
        result_queue := result_queue m @ new1\<rparr>"
  have "worker_thread ?m1 = Running" using Cons.prems(1) by simp
  moreover have "operation_queue ?m1 = map Some xs @ rest" by simp
  moreover have "list_all (insert_request n) (map Some xs)" using Cons.prems(3) by simp
  ultimately obtain c2 new2 more2 where
    w2: "(worker_iteration ^^ length xs) ?m1
      = ?m1\<lparr>operation_queue := rest, conn := c2, result_queue := result_queue ?m1 @ new2\<rparr>"
    and r2: "rows_of n c2 = rows_of n (conn ?m1) @ more2"
    and s2: "schema_of n c2 = schema_of n (conn ?m1)" and o2: "closed c2 = closed (conn ?m1)"
    using Cons.IH [of ?m1] by blast
  have "(worker_iteration ^^ length (x # xs)) m
      = m\<lparr>operation_queue := rest, conn := c2,
          result_queue := result_queue m @ (new1 @ new2)\<rparr>"
    using w1 w2 by (simp add: funpow_swap1)
  moreover have "rows_of n c2 = rows_of n (conn m) @ (more1 @ more2)" using r1 r2 by simp
  moreover have "schema_of n c2 = schema_of n (conn m)" using s1 s2 by simp
  moreover have "closed c2 = closed (conn m)" using o1 o2 by simp
  ultimately show ?case by blast
qed

lemma job_insert_accepted:
  assumes "find_table ''print_history'' (tables c) = Some t"
    and "t_columns t = print_history_columns" and "\<not> closed c"
    and "next_rowid t \<le> max_rowid"
  shows "execute (Some (InsertInto ''print_history'' insert_job))
      [Text url, Text print_type, Text qr_data, Text ''processing''] c
    = Inr (add_row c t (next_rowid t) (job_cells c url print_type qr_data))"
  using assms next_rowid_fresh [of t]
  by (simp add: execute_def exec_insert_def has_column_def print_history_columns_def
      new_cells_def given_rowid_def default_of_def insert_job_def check_bindings_def
      storable_def text_affinity numeric_affinity text_stays_text job_cells_def)

lemma cell_by_columns: "t_columns t' = t_columns t \<Longrightarrow> cell t' r c = cell t r c"
  by (simp add: cell_def is_rowid_alias_def)

lemma job_cells_read:
  assumes "t_columns t = print_history_columns"
  shows "cell t \<lparr>rowid = i, cells = job_cells c url print_type qr_data\<rparr> ''url'' = Text url"
    and "cell t (set_cell ''status'' v \<lparr>rowid = i, cells = job_cells c url print_type qr_data\<rparr>)
          ''status'' = v"
    and "cell t (set_cell ''status'' v \<lparr>rowid = i, cells = job_cells c url print_type qr_data\<rparr>)
          ''url'' = Text url"
    and "rowid (set_cell ''status'' v \<lparr>rowid = i, cells = job_cells c url print_type qr_data\<rparr>) = i"
  using assms
  by (simp_all add: cell_def is_rowid_alias_def print_history_columns_def job_cells_def
      set_cell_def)

lemma map_only_hits:
  "filter P xs = [] \<Longrightarrow> map (\<lambda>x. if P x then f x else x) xs = xs"
  by (induction xs) (auto split: if_splits)

lemma exec_status_update:
  assumes "find_table ''print_history'' (tables c) = Some t"
    and "t_columns t = print_history_columns" and "\<not> closed c"
  shows "\<exists>c'. execute (Some (UpdateSet ''print_history'' ''status'' (ColumnEquals ''url'')))
        [Text status, Text url] c
      = Inr (c', fresh_cursor\<lparr>rowcount :=
          int (length (filter (\<lambda>r. cell t r ''url'' = Text url) (t_rows t)))\<rparr>)
    \<and> rows_of ''print_history'' c'
      = map (\<lambda>r. if cell t r ''url'' = Text url then set_cell ''status'' (Text status) r else r)
          (t_rows t)"
proof -
  have aff: "column_affinity t ''url'' = TextAffinity" "column_affinity t ''status'' = TextAffinity"
    using assms(2) by (simp_all add: column_affinity_def print_history_columns_def text_affinity)
  have hit: "matches t (ColumnEquals ''url'') [Text url] = (\<lambda>r. cell t r ''url'' = Text url)"
    by (intro ext) (simp add: aff text_stays_text)
  have cols: "has_column t ''status''" "has_column t ''url''"
    "\<not> is_rowid_alias t ''status''" "\<not> is_not_null t ''status''"
    using assms(2)
    by (simp_all add: has_column_def is_rowid_alias_def is_not_null_def print_history_columns_def)
  have tn: "t_name t = ''print_history''" using assms(1) by (rule find_table_name)
  have st: "find_table ''print_history'' (store_table (t\<lparr>t_rows := rs\<rparr>) (tables c))
      = Some (t\<lparr>t_rows := rs\<rparr>)" for rs
    using find_table_store_same [OF assms(1)] tn by simp
  have st0: "find_table ''print_history'' (store_table t (tables c)) = Some t"
    using find_table_store_same [OF assms(1)] tn by simp
  have bind: "check_bindings [Text status, Text url] (Suc (Suc 0)) = None"
    by (simp add: check_bindings_def storable_def)
  show ?thesis
  proof (cases "filter (\<lambda>r. cell t r ''url'' = Text url) (t_rows t) = []")
    case True
    then have "map (\<lambda>r. if cell t r ''url'' = Text url then set_cell ''status'' (Text status) r
        else r) (t_rows t) = t_rows t"
      by (rule map_only_hits)
    then show ?thesis
      using True assms cols hit st0 bind aff
      by (simp add: execute_def exec_update_def Let_def rows_of_def text_stays_text)
  next
    case False
    then show ?thesis
      using assms cols hit st bind aff
      by (simp add: execute_def exec_update_def Let_def rows_of_def text_stays_text)
  qed
qed

lemma rows_of_table: "find_table n (tables c) = Some t \<Longrightarrow> rows_of n c = t_rows t"
  by (simp add: rows_of_def)

lemma insert_then_update_in_order:
  assumes "worker_thread m = Running" and "\<not> closed (conn m)"
    and "find_table ''print_history'' (tables (conn m)) = Some t"
    and "t_columns t = print_history_columns"
    and "next_rowid t \<le> max_rowid"
    and "list_all (insert_request ''print_history'') (map Some mid)"
  shows "\<exists>c' between k more.
      (worker_iteration ^^ (length mid + 2))
        (m\<lparr>operation_queue := Some (job_request url print_type qr_data) # map Some mid
              @ Some (status_update status url) # rest,
           result_queue := replies\<rparr>)
      = m\<lparr>operation_queue := rest, conn := c',
          result_queue := replies @ (''success'', IntV (next_rowid t)) # between
            @ [(''success'', IntV k)]\<rparr>
    \<and> 1 \<le> k
    \<and> rows_of ''print_history'' c'
      = map (\<lambda>r. if cell t r ''url'' = Text url then set_cell ''status'' (Text status) r else r)
          (t_rows t)
        @ set_cell ''status'' (Text status)
            \<lparr>rowid = next_rowid t, cells = job_cells (conn m) url print_type qr_data\<rparr>
        # more"
proof -
  let ?job = "job_request url print_type qr_data"
  let ?upd = "status_update status url"
  let ?rA = "\<lparr>rowid = next_rowid t, cells = job_cells (conn m) url print_type qr_data\<rparr>"
  let ?hit = "\<lambda>r. cell t r ''url'' = Text url"
  let ?set = "\<lambda>r. if ?hit r then set_cell ''status'' (Text status) r else r"
  let ?m0 = "m\<lparr>operation_queue := Some ?job # map Some mid @ Some ?upd # rest,
      result_queue := replies\<rparr>"
  obtain c1 where c1: "c1 = fst (add_row (conn m) t (next_rowid t)
      (job_cells (conn m) url print_type qr_data))" by simp
  have ex1: "execute (Some (InsertInto ''print_history'' insert_job))
      [Text url, Text print_type, Text qr_data, Text ''processing''] (conn m)
    = Inr (c1, \<lparr>lastrowid = Some (next_rowid t), rowcount = 1, fetched = []\<rparr>)"
    using job_insert_accepted [OF assms(3,4,2,5)] c1 by (simp add: add_row_def)
  have rows1: "rows_of ''print_history'' c1 = t_rows t @ [?rA]"
    using rows_after_add_row [OF assms(3)] assms(3) c1 by (simp add: rows_of_table)
  from insert_table_after [OF ex1 assms(3)] have
    sch1: "schema_of ''print_history'' c1 = Some print_history_columns"
    using assms(4) by (auto simp: schema_of_def)
  have open1: "\<not> closed c1" using execute_open [OF ex1] by simp
  let ?m1 = "m\<lparr>operation_queue := map Some mid @ Some ?upd # rest, conn := c1,
      result_queue := replies @ [(''success'', IntV (next_rowid t))]\<rparr>"
  have w1: "worker_iteration ?m0 = ?m1"
    using assms(1) ex1 by (simp add: worker_iteration_serves job_request_def dispatch_insert)
  have "worker_thread ?m1 = Running" using assms(1) by simp
  moreover have "operation_queue ?m1 = map Some mid @ (Some ?upd # rest)" by simp
  ultimately obtain c2 new more where
    w2: "(worker_iteration ^^ length mid) ?m1
      = ?m1\<lparr>operation_queue := Some ?upd # rest, conn := c2,
          result_queue := result_queue ?m1 @ new\<rparr>"
    and rows2: "rows_of ''print_history'' c2 = rows_of ''print_history'' (conn ?m1) @ more"
    and sch2: "schema_of ''print_history'' c2 = schema_of ''print_history'' (conn ?m1)"
    and open2: "closed c2 = closed (conn ?m1)"
    using serve_inserts [OF _ _ assms(6), of ?m1 "Some ?upd # rest"] by blast
  let ?m2 = "m\<lparr>operation_queue := Some ?upd # rest, conn := c2,
      result_queue := replies @ (''success'', IntV (next_rowid t)) # new\<rparr>"
  have m2: "(worker_iteration ^^ length mid) ?m1 = ?m2" using w2 by simp
  from sch2 sch1 obtain t2 where
    t2: "find_table ''print_history'' (tables c2) = Some t2"
    and cols2: "t_columns t2 = print_history_columns"
    by (auto simp: schema_of_def)
  have r2: "t_rows t2 = t_rows t @ ?rA # more"
    using rows2 rows1 t2 by (simp add: rows_of_table)
  have o2: "\<not> closed c2" using open2 open1 by simp
  have same: "cell t2 r c = cell t r c" for r c
    using cols2 assms(4) by (simp add: cell_by_columns)
  from exec_status_update [OF t2 cols2 o2, of status url] obtain c3 where
    ex3: "execute (Some (UpdateSet ''print_history'' ''status'' (ColumnEquals ''url'')))
        [Text status, Text url] c2
      = Inr (c3, fresh_cursor\<lparr>rowcount := int (length (filter ?hit (t_rows t2)))\<rparr>)"
    and rows3: "rows_of ''print_history'' c3 = map ?set (t_rows t2)"
    by (auto simp: same)
  let ?k = "int (length (filter ?hit (t_rows t2)))"
  have hitA: "?hit ?rA" using assms(4) by (simp add: job_cells_read)
  then have k: "1 \<le> ?k" by (simp add: r2)
  have w3: "worker_iteration ?m2
      = m\<lparr>operation_queue := rest, conn := c3,
          result_queue := replies @ (''success'', IntV (next_rowid t)) # new
            @ [(''success'', IntV ?k)]\<rparr>"
    using assms(1) ex3 by (simp add: worker_iteration_serves status_update_def dispatch_update)
  have "(worker_iteration ^^ (length mid + 2)) ?m0
      = worker_iteration ((worker_iteration ^^ length mid) (worker_iteration ?m0))"
    by (simp add: funpow_swap1)
  then have run: "(worker_iteration ^^ (length mid + 2)) ?m0
      = m\<lparr>operation_queue := rest, conn := c3,
          result_queue := replies @ (''success'', IntV (next_rowid t)) # new
            @ [(''success'', IntV ?k)]\<rparr>"
    using w1 m2 w3 by simp
  have "rows_of ''print_history'' c3
      = map ?set (t_rows t) @ set_cell ''status'' (Text status) ?rA # map ?set more"
    using rows3 r2 hitA by simp
  with run k show ?thesis by blast
qed

subsection \<open>Affected-row counts on an idle manager\<close>

text \<open>With nothing queued and one row stored under rowid 1: an update by \<^verbatim>\<open>url\<close> and a
  delete by \<^verbatim>\<open>id\<close> return the number of rows they affected, also when the identifier is
  bound as text, as \<^verbatim>\<open>delete_selected\<close> binds it.\<close>

lemma counts_on_an_idle_manager:
  "update (\<lambda>t. 1) set_status_by_url [Text ''completed'', Text ''https://example.com/a.pdf'']
       example_manager_after
     = (Inr (IntV 1),
        example_manager_after\<lparr>conn := connect example_db_completed ''2025-01-01 00:00:00''\<rparr>)
   \<and> delete (\<lambda>t. 1) delete_by_id [Text ''1''] example_manager_after
     = (Inr (IntV 1),
        example_manager_after\<lparr>conn := connect example_db_emptied ''2025-01-01 00:00:00''\<rparr>)
   \<and> delete (\<lambda>t. 1) delete_by_id [Integer 1] example_manager_after
     = (Inr (IntV 1),
        example_manager_after\<lparr>conn := connect example_db_emptied ''2025-01-01 00:00:00''\<rparr>)
   \<and> delete (\<lambda>t. 1) delete_by_id [Text ''7''] example_manager_after
     = (Inr (IntV 0), example_manager_after)"
  by code_simp

section \<open>The claims\<close>

text \<open>
  C1. The worker answers a successful insert with the rowid it assigned, but the gateway
  call does not always return it: an \<^verbatim>\<open>insert\<close> gives up waiting and leaves its request
  queued; the next \<^verbatim>\<open>insert\<close> is given the first reply on the shared queue, the rowid 1
  of the abandoned insert, while its own row is stored under rowid 2 and the reply that
  carries 2 stays on the queue.
\<close>

theorem insert_returns_an_earlier_rowid:
  "insert_op (\<lambda>t. 0) (Some (InsertInto ''print_history'' insert_job)) example_job example_manager
     = (Inl Timeout, abandoned_insert)
   \<and> operation_queue abandoned_insert = [Some insert_example_job]
   \<and> fst (insert_op (\<lambda>t. 2) insert_url_only [Text ''https://example.com/b.pdf''] abandoned_insert)
     = Inr (IntV 1)
   \<and> map (\<lambda>r. (rowid r, cell example_table r ''url''))
       (rows_of ''print_history'' (conn (snd (insert_op (\<lambda>t. 2) insert_url_only
          [Text ''https://example.com/b.pdf''] abandoned_insert))))
     = [(1, Text ''https://example.com/a.pdf''), (2, Text ''https://example.com/b.pdf'')]
   \<and> result_queue (snd (insert_op (\<lambda>t. 2) insert_url_only
          [Text ''https://example.com/b.pdf''] abandoned_insert))
     = [(''success'', IntV 2)]"
  by code_simp

text \<open>
  C2. The worker answers a failing request with \<^verbatim>\<open>('error', str(e))\<close> and keeps running,
  but the error does not always reach the caller that caused it: an \<^verbatim>\<open>insert\<close> with a
  malformed query gives up waiting; the well-formed \<^verbatim>\<open>select\<close> that follows raises the
  database error of the malformed insert, and its own successful reply stays on the queue.
\<close>

theorem error_reaches_the_next_caller:
  "insert_op (\<lambda>t. 0) (Some Malformed) [] example_manager = (Inl Timeout, abandoned_malformed)
   \<and> operation_queue abandoned_malformed = [Some (''insert'', Some Malformed, [])]
   \<and> select (\<lambda>t. 2) count_jobs None abandoned_malformed
     = (Inl (DatabaseError (StrV ''syntax error'')),
        example_manager\<lparr>result_queue := [(''success'', RowsV [[Integer 0]])]\<rparr>)"
  by code_simp




text \<open>
  C4. In every interleaving, from every state, what was queued followed by what the
  callers put is what the worker took, in that order, followed by what is still queued,
  and the connection at the end is the initial one after the effects of the requests taken,
  one after the other in that order: no request overtakes another. In particular, when a
  thread has queued the insert of a job, other threads' inserts are queued behind it, and
  the thread's update of the status of the rows with the job's \<^verbatim>\<open>url\<close> is queued behind
  those, the worker serves them in that order, whatever replies are waiting: the insert
  stores the job's row, the update reaches at least one row, and the job's row is among
  the rows it has changed.
\<close>

theorem operations_run_in_submission_order:
  assumes "worker_thread m = Running" and "\<not> closed (conn m)"
    and "find_table ''print_history'' (tables (conn m)) = Some t"
    and "t_columns t = print_history_columns"
    and "next_rowid t \<le> max_rowid"
    and "list_all (insert_request ''print_history'') (map Some mid)"
  shows "operation_queue (mgr s) @ enqueued tr
      = taken (snd (run tr s)) @ operation_queue (mgr (fst (run tr s)))
    \<and> conn (mgr (fst (run tr s))) = fold effect (taken (snd (run tr s))) (conn (mgr s))
    \<and> (\<exists>c' between k more.
        (worker_iteration ^^ (length mid + 2))
          (m\<lparr>operation_queue := Some (job_request url print_type qr_data) # map Some mid
                @ Some (status_update status url) # rest,
             result_queue := replies\<rparr>)
        = m\<lparr>operation_queue := rest, conn := c',
            result_queue := replies @ (''success'', IntV (next_rowid t)) # between
              @ [(''success'', IntV k)]\<rparr>
      \<and> 1 \<le> k
      \<and> rows_of ''print_history'' c'
        = map (\<lambda>r. if cell t r ''url'' = Text url then set_cell ''status'' (Text status) r
                    else r) (t_rows t)
          @ set_cell ''status'' (Text status)
              \<lparr>rowid = next_rowid t, cells = job_cells (conn m) url print_type qr_data\<rparr>
          # more)"
  using run_order [of s tr] run_effects [of tr s]
    insert_then_update_in_order [OF assms, where url = url and print_type = print_type
      and qr_data = qr_data and status = status and rest = rest and replies = replies]
  by simp

lemma example_backlog_served:
  "operation_queue ((worker_iteration ^^ 3)
        (example_manager\<lparr>operation_queue := example_backlog\<rparr>)) = []
   \<and> result_queue ((worker_iteration ^^ 3)
        (example_manager\<lparr>operation_queue := example_backlog\<rparr>))
     = [(''success'', IntV 1), (''success'', IntV 2), (''success'', IntV 1)]
   \<and> map (\<lambda>r. (rowid r, cell example_table r ''url'', cell example_table r ''status''))
       (rows_of ''print_history'' (conn ((worker_iteration ^^ 3)
          (example_manager\<lparr>operation_queue := example_backlog\<rparr>))))
     = [(1, Text ''https://example.com/a.pdf'', Text ''completed''),
        (2, Text ''https://example.com/b.pdf'', Text ''completed'')]"
  by code_simp

lemma example_overtaking_run:
  "returned (snd (run example_overtaking (observe example_manager)))
     = [Inr (IntV 1), Inr (IntV 2)]
   \<and> operation_queue (mgr (fst (run example_overtaking (observe example_manager)))) = []
   \<and> map (\<lambda>r. (rowid r, cell example_table r ''url'', cell example_table r ''status''))
       (rows_of ''print_history''
          (conn (mgr (fst (run example_overtaking (observe example_manager))))))
     = [(1, Text ''https://example.com/a.pdf'', Text ''completed''),
        (2, Text ''https://example.com/b.pdf'', Text ''completed'')]"
  by code_simp

theorem operations_run_in_submission_order_witness:
  "worker_thread example_manager = Running \<and> \<not> closed (conn example_manager)
   \<and> find_table ''print_history'' (tables (conn example_manager)) = Some example_table
   \<and> t_columns example_table = print_history_columns
   \<and> next_rowid example_table \<le> max_rowid
   \<and> list_all (insert_request ''print_history'') (map Some [insert_second_job])
   \<and> taken (snd (run example_overtaking (observe example_manager))) = example_backlog
   \<and> returned (snd (run example_overtaking (observe example_manager)))
     = [Inr (IntV 1), Inr (IntV 2)]
   \<and> map (\<lambda>r. (rowid r, cell example_table r ''url'', cell example_table r ''status''))
       (rows_of ''print_history''
          (conn (mgr (fst (run example_overtaking (observe example_manager))))))
     = [(1, Text ''https://example.com/a.pdf'', Text ''completed''),
        (2, Text ''https://example.com/b.pdf'', Text ''completed'')]
   \<and> result_queue ((worker_iteration ^^ 3)
        (example_manager\<lparr>operation_queue := example_backlog\<rparr>))
     = [(''success'', IntV 1), (''success'', IntV 2), (''success'', IntV 1)]"
proof -
  have r: "worker_thread example_manager = Running"
    and o: "\<not> closed (conn example_manager)"
    by (simp_all add: example_manager_def started_def connect_def)
  have t: "find_table ''print_history'' (tables (conn example_manager)) = Some example_table"
    by (simp add: example_manager_def started_def connect_def example_db_def
        find_table_def example_table_def)
  have cols: "t_columns example_table = print_history_columns"
    by (simp add: example_table_def)
  have n: "next_rowid example_table \<le> max_rowid" by code_simp
  have i: "list_all (insert_request ''print_history'') (map Some [insert_second_job])"
    by code_simp
  have e: "enqueued example_overtaking = example_backlog"
    by (simp add: example_overtaking_def example_backlog_def)
  have q: "operation_queue (mgr (observe example_manager)) = []"
    by (simp add: observe_def example_manager_def started_def)
  note l = example_overtaking_run [THEN conjunct2, THEN conjunct1]
  note w = operations_run_in_submission_order [OF r o t cols n i,
      where s = "observe example_manager" and tr = example_overtaking]
  from w [THEN conjunct1, unfolded e l q]
  have f: "taken (snd (run example_overtaking (observe example_manager))) = example_backlog"
    by simp
  from f example_overtaking_run example_backlog_served r o t cols n i show ?thesis by simp
qed

text \<open>
  C5. With one shared result queue and nothing to match a reply to its request, two
  threads that call the gateway concurrently can be served crosswise: when the first
  request is answered and the second thread's \<^verbatim>\<open>get\<close> returns first, the second thread
  receives the reply to the first thread's request. Both threads follow the protocol of
  one call at a time.
\<close>

theorem reply_reaches_another_caller:
  assumes "worker_thread m = Running" and "operation_queue m = []" and "result_queue m = []"
    and "dispatch op1 (conn m) = Inr (c1, Some r1)" and "t1 \<noteq> t2"
  shows "follows_protocol [] (race t1 op1 t2 op2)
    \<and> take 2 (snd (run (race t1 op1 t2 op2) (observe m)))
      = [Ran op1 [r1], Got t2 (Some t1) (outcome r1)]
    \<and> list_ex misdelivered (snd (run (race t1 op1 t2 op2) (observe m)))"
proof -
  have p: "follows_protocol [] (race t1 op1 t2 op2)"
    using assms(5) by (simp add: race_def)
  have split: "race t1 op1 t2 op2
      = [Submit t1 op1, Submit t2 op2, Work, Collect t2] @ [Work, Collect t1]"
    by (simp add: race_def)
  obtain s2 o2 where rest: "run [Work, Collect t1]
      \<lparr>mgr = m\<lparr>operation_queue := [Some op2], conn := c1\<rparr>,
        askers = [Some t2], addressees = []\<rparr> = (s2, o2)"
    by (cases "run [Work, Collect t1]
      \<lparr>mgr = m\<lparr>operation_queue := [Some op2], conn := c1\<rparr>, askers = [Some t2], addressees = []\<rparr>")
  have obs: "snd (run (race t1 op1 t2 op2) (observe m))
      = [Ran op1 [r1], Got t2 (Some t1) (outcome r1)] @ o2"
    unfolding split run_append race_start [OF assms(1-4)] using rest by simp
  from p obs assms(5) show ?thesis by simp
qed

theorem reply_reaches_another_caller_witness:
  "worker_thread example_manager = Running
   \<and> operation_queue example_manager = [] \<and> result_queue example_manager = []
   \<and> dispatch (''insert'', Some (InsertInto ''print_history'' insert_job), example_job)
        (conn example_manager)
      = Inr (conn example_manager_after, Some (''success'', IntV 1))
   \<and> (1::nat) \<noteq> 2
   \<and> follows_protocol []
        (race 1 (''insert'', Some (InsertInto ''print_history'' insert_job), example_job)
              2 (''select'', count_jobs, []))
   \<and> snd (run (race 1 (''insert'', Some (InsertInto ''print_history'' insert_job), example_job)
                     2 (''select'', count_jobs, []))
            (observe example_manager))
      = [Ran (''insert'', Some (InsertInto ''print_history'' insert_job), example_job)
           [(''success'', IntV 1)],
         Got 2 (Some 1) (Inr (IntV 1)),
         Ran (''select'', count_jobs, []) [(''success'', RowsV [[Integer 1]])],
         Got 1 (Some 2) (Inr (RowsV [[Integer 1]]))]"
proof -
  have r: "worker_thread example_manager = Running"
    and q: "operation_queue example_manager = []" "result_queue example_manager = []"
    by (simp_all add: example_manager_def started_def)
  have d: "dispatch (''insert'', Some (InsertInto ''print_history'' insert_job), example_job)
        (conn example_manager)
      = Inr (conn example_manager_after, Some (''success'', IntV 1))"
    by code_simp
  have n: "(1::nat) \<noteq> 2" by simp
  have obs: "snd (run (race 1 (''insert'', Some (InsertInto ''print_history'' insert_job), example_job)
                     2 (''select'', count_jobs, []))
            (observe example_manager))
      = [Ran (''insert'', Some (InsertInto ''print_history'' insert_job), example_job)
           [(''success'', IntV 1)],
         Got 2 (Some 1) (Inr (IntV 1)),
         Ran (''select'', count_jobs, []) [(''success'', RowsV [[Integer 1]])],
         Got 1 (Some 2) (Inr (RowsV [[Integer 1]]))]"
    by code_simp
  from reply_reaches_another_caller [OF r q d n, of "(''select'', count_jobs, [])"] r q d n obs
  show ?thesis by simp
qed

text \<open>
  C6. A call whose wait ends with the result queue empty raises the timeout exception;
  the request stays queued. The worker executes it later and its reply is still on the
  shared queue when the next call collects: here an \<^verbatim>\<open>insert\<close> times out, and the
  \<^verbatim>\<open>select\<close> that follows returns the rowid of that insert, while the rows it asked for
  are left on the queue for the call after it.
\<close>

theorem abandoned_reply_reaches_next_call:
  "insert_op (\<lambda>t. 0) (Some (InsertInto ''print_history'' insert_job)) example_job example_manager
     = (Inl Timeout,
        example_manager\<lparr>operation_queue :=
          [Some (''insert'', Some (InsertInto ''print_history'' insert_job), example_job)]\<rparr>)
   \<and> select (\<lambda>t. 2) count_jobs None
        (snd (insert_op (\<lambda>t. 0) (Some (InsertInto ''print_history'' insert_job)) example_job
               example_manager))
     = (Inr (IntV 1),
        example_manager_after\<lparr>result_queue := [(''success'', RowsV [[Integer 1]])]\<rparr>)"
  by code_simp

text \<open>
  C7. The worker answers an update or a delete with the number of affected rows, but
  the gateway call does not always return it: an \<^verbatim>\<open>insert\<close> gives up waiting; the
  \<^verbatim>\<open>delete\<close> of the unknown identifier 7 that follows returns 1, the rowid of the
  abandoned insert, and the count 0 that answers it stays on the queue.
\<close>

theorem delete_returns_an_earlier_rowid:
  "insert_op (\<lambda>t. 0) (Some (InsertInto ''print_history'' insert_job)) example_job example_manager
     = (Inl Timeout, abandoned_insert)
   \<and> delete (\<lambda>t. 2) delete_by_id [Text ''7''] abandoned_insert
     = (Inr (IntV 1), example_manager_after\<lparr>result_queue := [(''success'', IntV 0)]\<rparr>)"
  by code_simp

text \<open>
  C8. On an open connection the \<^verbatim>\<open>init_db\<close> request never raises: any number of them in
  a row are each answered \<^verbatim>\<open>('success', None)\<close>, and the connection after all of them is
  the connection after the first. The statement is idempotent, it leaves one definition of
  \<^verbatim>\<open>print_history\<close> where there was none and as many as there were otherwise, and it
  leaves the rows of every table alone.
\<close>

theorem init_is_idempotent:
  assumes "worker_thread m = Running" and "\<not> closed (conn m)" and "0 < pace 5"
  shows "(worker_iteration ^^ Suc k)
        (m\<lparr>operation_queue := replicate (Suc k) (Some (''init_db'', query, params)) @ rest,
           result_queue := replies\<rparr>)
      = m\<lparr>operation_queue := rest,
          result_queue := replies @ replicate (Suc k) (''success'', NoneV),
          conn := created (conn m)\<rparr>
    \<and> created (created (conn m)) = created (conn m)
    \<and> length (definitions_of ''print_history'' (created (conn m)))
      = max 1 (length (definitions_of ''print_history'' (conn m)))
    \<and> rows_of n (created (conn m)) = rows_of n (conn m)
    \<and> execute_operation pace ''init_db'' query params 5
        (m\<lparr>operation_queue := [], result_queue := []\<rparr>)
      = (Inr NoneV, m\<lparr>operation_queue := [], result_queue := [], conn := created (conn m)\<rparr>)"
proof -
  have a: "(worker_iteration ^^ Suc k)
        (m\<lparr>operation_queue := replicate (Suc k) (Some (''init_db'', query, params)) @ rest,
           result_queue := replies\<rparr>)
      = m\<lparr>operation_queue := rest,
          result_queue := replies @ replicate (Suc k) (''success'', NoneV),
          conn := created (conn m)\<rparr>"
    using init_requests_served [OF assms(1,2), of "Suc k"] created_many [of k "conn m"]
    by simp
  have "dispatch (''init_db'', query, params) (conn (m\<lparr>operation_queue := [], result_queue := []\<rparr>))
      = Inr (created (conn m), Some (''success'', NoneV))"
    using assms(2) by (simp add: dispatch_init)
  then have b: "execute_operation pace ''init_db'' query params 5
        (m\<lparr>operation_queue := [], result_queue := []\<rparr>)
      = (Inr NoneV, m\<lparr>operation_queue := [], result_queue := []\<rparr>\<lparr>conn := created (conn m)\<rparr>)"
    using assms(1,3) by (intro call_answered) simp_all
  from a b created_twice created_definitions [OF assms(2)] created_rows show ?thesis by simp
qed


lemma tables_connect: "tables (connect db now) = db"
  by (simp add: connect_def)

lemma example_created:
  "created (connect [] ''2025-01-01 00:00:00'') = connect example_db ''2025-01-01 00:00:00''"
  by (simp add: created_eq connect_def find_table_def example_db_def example_table_def)

theorem init_is_idempotent_witness:
  "worker_thread empty_manager = Running \<and> \<not> closed (conn empty_manager)
   \<and> 0 < (\<lambda>t::nat. 1::nat) 5
   \<and> (worker_iteration ^^ 2)
        (empty_manager\<lparr>operation_queue := [Some (''init_db'', None, []), Some (''init_db'', None, [])]\<rparr>)
      = example_manager\<lparr>result_queue := [(''success'', NoneV), (''success'', NoneV)]\<rparr>
   \<and> init (\<lambda>t. 1) [] ''2025-01-01 00:00:00'' = (Inr NoneV, example_manager)
   \<and> length (definitions_of ''print_history'' (conn example_manager)) = 1"
proof -
  have r: "worker_thread empty_manager = Running" and o: "\<not> closed (conn empty_manager)"
    by (simp_all add: empty_manager_def started_def connect_def)
  have p: "0 < (\<lambda>t::nat. 1::nat) 5" by simp
  note w = init_is_idempotent [OF r o p, where k = 1 and query = None and params = "[]"
      and rest = "[]" and replies = "[]" and n = "''print_history''"]
  have a: "(worker_iteration ^^ 2)
        (empty_manager\<lparr>operation_queue := [Some (''init_db'', None, []), Some (''init_db'', None, [])]\<rparr>)
      = example_manager\<lparr>result_queue := [(''success'', NoneV), (''success'', NoneV)]\<rparr>"
    using w [THEN conjunct1]
    by (simp add: empty_manager_def example_manager_def started_def example_created numeral_2_eq_2)
  have b: "init (\<lambda>t. 1) [] ''2025-01-01 00:00:00'' = (Inr NoneV, example_manager)"
    using w [THEN conjunct2, THEN conjunct2, THEN conjunct2, THEN conjunct2]
    by (simp add: init_def empty_manager_def example_manager_def started_def example_created)
  have c: "length (definitions_of ''print_history'' (conn example_manager)) = 1"
    using w [THEN conjunct2, THEN conjunct2, THEN conjunct1]
    by (simp add: empty_manager_def example_manager_def started_def example_created
        definitions_of_def tables_connect)
  from a b c r o p show ?thesis by simp
qed

text \<open>
  C9. The shutdown signal is \<open>None\<close> on the operation queue, which no request is. A
  running worker that takes it closes the connection and ends, leaving what is queued
  behind it untaken, whereas a worker that finds its queue empty runs on. An ended worker
  takes nothing, however many passes the scheduler offers. \<^verbatim>\<open>close\<close> returns after its
  wait whether the worker has ended or not. A request submitted after the signal is never
  executed and its call times out, however long the caller waits.
\<close>

theorem shutdown_stops_the_worker:
  assumes "worker_thread m = Running" and "operation_queue m = []" and "result_queue m = []"
  shows "worker_iteration (m\<lparr>operation_queue := None # rest, result_queue := replies\<rparr>)
      = m\<lparr>operation_queue := rest, result_queue := replies,
          conn := close_connection (conn m), worker_thread := Finished\<rparr>
    \<and> worker (Suc fuel) (m\<lparr>operation_queue := None # rest\<rparr>)
      = Some (m\<lparr>operation_queue := rest, conn := close_connection (conn m),
                worker_thread := Finished\<rparr>)
    \<and> worker fuel m = None
    \<and> closed (close_connection (conn m))
    \<and> (worker_iteration ^^ k) (m\<lparr>operation_queue := rest, worker_thread := Finished\<rparr>)
      = m\<lparr>operation_queue := rest, worker_thread := Finished\<rparr>
    \<and> close pace m
      = (if pace 2 = 0 then m\<lparr>operation_queue := [None]\<rparr>
         else m\<lparr>conn := close_connection (conn m), worker_thread := Finished\<rparr>)
    \<and> execute_operation pace' op_type query params timeout (m\<lparr>operation_queue := [None]\<rparr>)
      = (Inl Timeout,
         if pace' timeout = 0
         then m\<lparr>operation_queue := [None, Some (op_type, query, params)]\<rparr>
         else m\<lparr>operation_queue := [Some (op_type, query, params)],
                conn := close_connection (conn m), worker_thread := Finished\<rparr>)"
proof -
  have a: "worker_iteration (m\<lparr>operation_queue := None # rest, result_queue := replies\<rparr>)
      = m\<lparr>operation_queue := rest, result_queue := replies,
          conn := close_connection (conn m), worker_thread := Finished\<rparr>"
    using assms(1) by (simp add: worker_iteration_stops)
  have b: "worker (Suc fuel) (m\<lparr>operation_queue := None # rest\<rparr>)
      = Some (m\<lparr>operation_queue := rest, conn := close_connection (conn m),
                worker_thread := Finished\<rparr>)"
    by (simp add: loop_body_def finish_def)
  have c: "closed (close_connection (conn m))" by (simp add: close_connection_def)
  have p: "worker fuel m = None" using assms(2) by (rule worker_polls_forever)
  have d: "(worker_iteration ^^ k) (m\<lparr>operation_queue := rest, worker_thread := Finished\<rparr>)
      = m\<lparr>operation_queue := rest, worker_thread := Finished\<rparr>"
    by (rule worker_iterations_finished) simp
  have e: "close pace m
      = (if pace 2 = 0 then m\<lparr>operation_queue := [None]\<rparr>
         else m\<lparr>conn := close_connection (conn m), worker_thread := Finished\<rparr>)"
  proof (cases "pace 2 = 0")
    case True
    then show ?thesis using assms(2) by (simp add: close_def put_operation_def)
  next
    case False
    then have "(worker_iteration ^^ pace 2) (m\<lparr>operation_queue := [None]\<rparr>)
        = (m\<lparr>operation_queue := [None]\<rparr>)\<lparr>operation_queue := [],
            conn := close_connection (conn (m\<lparr>operation_queue := [None]\<rparr>)),
            worker_thread := Finished\<rparr>"
      using assms(1) by (intro signalled_worker_stops) simp_all
    then show ?thesis using False assms(2) by (simp add: close_def put_operation_def)
  qed
  have f: "execute_operation pace' op_type query params timeout (m\<lparr>operation_queue := [None]\<rparr>)
      = (Inl Timeout,
         if pace' timeout = 0
         then m\<lparr>operation_queue := [None, Some (op_type, query, params)]\<rparr>
         else m\<lparr>operation_queue := [Some (op_type, query, params)],
                conn := close_connection (conn m), worker_thread := Finished\<rparr>)"
  proof (cases "pace' timeout = 0")
    case True
    then show ?thesis
      using assms(3) by (simp add: execute_operation_def put_operation_def get_result_def)
  next
    case False
    let ?m1 = "m\<lparr>operation_queue := [None, Some (op_type, query, params)]\<rparr>"
    have "(worker_iteration ^^ pace' timeout) ?m1
        = ?m1\<lparr>operation_queue := [Some (op_type, query, params)],
            conn := close_connection (conn ?m1), worker_thread := Finished\<rparr>"
      using assms(1) False by (intro signalled_worker_stops) simp_all
    then show ?thesis
      using False assms(3) by (simp add: execute_operation_def put_operation_def get_result_def)
  qed
  from a b p c d e f show ?thesis by simp
qed

theorem shutdown_stops_the_worker_witness:
  "worker_thread example_manager = Running
   \<and> operation_queue example_manager = [] \<and> result_queue example_manager = []
   \<and> close (\<lambda>t. 0) example_manager = example_manager\<lparr>operation_queue := [None]\<rparr>
   \<and> close (\<lambda>t. 1) example_manager
      = example_manager\<lparr>conn := close_connection (conn example_manager),
          worker_thread := Finished\<rparr>
   \<and> fst (select (\<lambda>t. 3) count_jobs None (example_manager\<lparr>operation_queue := [None]\<rparr>))
      = Inl Timeout"
proof -
  have r: "worker_thread example_manager = Running"
    and q: "operation_queue example_manager = []" "result_queue example_manager = []"
    by (simp_all add: example_manager_def started_def)
  note w0 = shutdown_stops_the_worker [OF r q, where pace = "\<lambda>t. 0" and pace' = "\<lambda>t. 3"
      and op_type = "''select''" and query = count_jobs and params = "[]" and timeout = 5
      and rest = "[]" and replies = "[]" and k = 0 and fuel = 0]
  note w1 = shutdown_stops_the_worker [OF r q, where pace = "\<lambda>t. 1" and pace' = "\<lambda>t. 3"
      and op_type = "''select''" and query = count_jobs and params = "[]" and timeout = 5
      and rest = "[]" and replies = "[]" and k = 0 and fuel = 0]
  have a: "close (\<lambda>t. 0) example_manager = example_manager\<lparr>operation_queue := [None]\<rparr>"
    using w0 [THEN conjunct2, THEN conjunct2, THEN conjunct2, THEN conjunct2, THEN conjunct2,
        THEN conjunct1]
    by simp
  have b: "close (\<lambda>t. 1) example_manager
      = example_manager\<lparr>conn := close_connection (conn example_manager),
          worker_thread := Finished\<rparr>"
    using w1 [THEN conjunct2, THEN conjunct2, THEN conjunct2, THEN conjunct2, THEN conjunct2,
        THEN conjunct1]
    by simp
  have c: "fst (select (\<lambda>t. 3) count_jobs None (example_manager\<lparr>operation_queue := [None]\<rparr>))
      = Inl Timeout"
    using w0 [THEN conjunct2, THEN conjunct2, THEN conjunct2, THEN conjunct2, THEN conjunct2,
        THEN conjunct2]
    by (simp add: select_def)
  from a b c r q show ?thesis by simp
qed

text \<open>
  C10. In a table with the schema of the \<^verbatim>\<open>init_db\<close> branch, an insert that names no
  \<^verbatim>\<open>status\<close> column and is accepted stores its row with status \<^verbatim>\<open>'completed'\<close>, the
  schema default, and not \<^verbatim>\<open>'processing'\<close>. The request that \<^verbatim>\<open>save_to_history\<close> queues
  binds \<^verbatim>\<open>'processing'\<close> to the \<^verbatim>\<open>status\<close> column: when the worker executes it and the
  store accepts it, whatever else is queued, the row it stores has status
  \<^verbatim>\<open>'processing'\<close>, and that is the row in the store when \<^verbatim>\<open>save_to_history\<close> returns
  from a call served within its wait.
\<close>

theorem status_default_is_completed:
  assumes "find_table ''print_history'' (tables (conn m)) = Some t"
    and "t_columns t = print_history_columns"
    and "''status'' \<notin> set cs"
    and "execute (Some (InsertInto ''print_history'' cs)) ps (conn m) = Inr (c', cur)"
    and "execute (Some (InsertInto ''print_history'' insert_job))
           [Text url, Text print_type, Text qr_data, Text ''processing''] (conn m)
         = Inr (c2, cur2)"
    and "worker_thread m = Running" and "0 < pace 5"
  shows "(\<exists>r. rows_of ''print_history'' c' = rows_of ''print_history'' (conn m) @ [r]
        \<and> lastrowid cur = Some (rowid r)
        \<and> cell t r ''status'' = Text ''completed''
        \<and> cell t r ''status'' \<noteq> Text ''processing'')
    \<and> (\<exists>r. rows_of ''print_history'' c2 = rows_of ''print_history'' (conn m) @ [r]
        \<and> cell t r ''status'' = Text ''processing''
        \<and> worker_iteration
            (m\<lparr>operation_queue := Some (job_request url print_type qr_data) # rest,
               result_queue := replies\<rparr>)
          = m\<lparr>operation_queue := rest, conn := c2,
              result_queue := replies @ [(''success'', IntV (rowid r))]\<rparr>)
    \<and> save_to_history (\<lambda>t. 0) url print_type qr_data
          (m\<lparr>operation_queue := queue, result_queue := []\<rparr>)
        = m\<lparr>operation_queue := queue @ [Some (job_request url print_type qr_data)],
            result_queue := []\<rparr>
    \<and> save_to_history pace url print_type qr_data
          (m\<lparr>operation_queue := [], result_queue := []\<rparr>)
        = m\<lparr>operation_queue := [], result_queue := [], conn := c2\<rparr>"
proof -
  let ?ps = "[Text url, Text print_type, Text qr_data, Text ''processing'']"
  from insert_row_cells [OF assms(4,1)] obtain i where
    i: "lastrowid cur = Some i"
    and rows: "rows_of ''print_history'' c' = rows_of ''print_history'' (conn m)
        @ [\<lparr>rowid = i, cells = new_cells (conn m) t (zip cs ps)\<rparr>]" by blast
  have "cell t \<lparr>rowid = i, cells = new_cells (conn m) t (zip cs ps)\<rparr> ''status'' = Text ''completed''"
    using assms(2,3) by (simp add: status_of_new_cells map_of_zip_absent text_stays_text)
  with i rows have first: "\<exists>r. rows_of ''print_history'' c' = rows_of ''print_history'' (conn m) @ [r]
        \<and> lastrowid cur = Some (rowid r)
        \<and> cell t r ''status'' = Text ''completed''
        \<and> cell t r ''status'' \<noteq> Text ''processing''"
    by (intro exI [of _ "\<lparr>rowid = i, cells = new_cells (conn m) t (zip cs ps)\<rparr>"]) simp
  from insert_row_cells [OF assms(5,1)] obtain j where
    j: "lastrowid cur2 = Some j"
    and rows2: "rows_of ''print_history'' c2 = rows_of ''print_history'' (conn m)
        @ [\<lparr>rowid = j, cells = new_cells (conn m) t (zip insert_job ?ps)\<rparr>]" by blast
  let ?r = "\<lparr>rowid = j, cells = new_cells (conn m) t (zip insert_job ?ps)\<rparr>"
  have st: "cell t ?r ''status'' = Text ''processing''"
    using assms(2) by (simp add: status_of_new_cells insert_job_def text_stays_text)
  have d: "dispatch (job_request url print_type qr_data) (conn m)
      = Inr (c2, Some (''success'', IntV j))"
    using assms(5) j by (simp add: job_request_def dispatch_insert)
  have w: "worker_iteration
            (m\<lparr>operation_queue := Some (job_request url print_type qr_data) # rest,
               result_queue := replies\<rparr>)
          = m\<lparr>operation_queue := rest, conn := c2,
              result_queue := replies @ [(''success'', IntV (rowid ?r))]\<rparr>"
    using assms(6) d by (simp add: worker_iteration_serves)
  from rows2 st w have second: "\<exists>r. rows_of ''print_history'' c2
          = rows_of ''print_history'' (conn m) @ [r]
        \<and> cell t r ''status'' = Text ''processing''
        \<and> worker_iteration
            (m\<lparr>operation_queue := Some (job_request url print_type qr_data) # rest,
               result_queue := replies\<rparr>)
          = m\<lparr>operation_queue := rest, conn := c2,
              result_queue := replies @ [(''success'', IntV (rowid r))]\<rparr>"
    by (intro exI [of _ ?r]) simp
  have third: "save_to_history (\<lambda>t. 0) url print_type qr_data
          (m\<lparr>operation_queue := queue, result_queue := []\<rparr>)
        = m\<lparr>operation_queue := queue @ [Some (job_request url print_type qr_data)],
            result_queue := []\<rparr>"
    by (simp add: save_to_history_def insert_op_def execute_operation_def put_operation_def
        get_result_def job_request_def)
  have "dispatch (''insert'', Some (InsertInto ''print_history'' insert_job), ?ps)
        (conn (m\<lparr>operation_queue := [], result_queue := []\<rparr>))
      = Inr (c2, Some (''success'', IntV j))"
    using d by (simp add: job_request_def)
  then have "insert_op pace (Some (InsertInto ''print_history'' insert_job)) ?ps
        (m\<lparr>operation_queue := [], result_queue := []\<rparr>)
      = (Inr (IntV j), m\<lparr>operation_queue := [], result_queue := []\<rparr>\<lparr>conn := c2\<rparr>)"
    unfolding insert_op_def using assms(6,7) by (intro call_answered) simp_all
  then have fourth: "save_to_history pace url print_type qr_data
          (m\<lparr>operation_queue := [], result_queue := []\<rparr>)
        = m\<lparr>operation_queue := [], result_queue := [], conn := c2\<rparr>"
    by (simp add: save_to_history_def)
  from first second third fourth show ?thesis by blast
qed


lemma example_insert:
  "execute (Some (InsertInto ''print_history'' insert_job))
     [Text ''https://example.com/a.pdf'', Text ''label'',
      Text ''label:https://example.com/a.pdf'', Text ''processing''] (conn example_manager)
   = Inr (connect example_db_after ''2025-01-01 00:00:00'',
          \<lparr>lastrowid = Some 1, rowcount = 1, fetched = []\<rparr>)"
  by code_simp

lemma example_insert_url_only:
  "execute (Some (InsertInto ''print_history'' [''url''])) [Text ''https://example.com/a.pdf'']
     (conn example_manager)
   = Inr (connect example_db_defaulted ''2025-01-01 00:00:00'',
          \<lparr>lastrowid = Some 1, rowcount = 1, fetched = []\<rparr>)"
  by code_simp

theorem status_default_is_completed_witness:
  "find_table ''print_history'' (tables (conn example_manager)) = Some example_table
   \<and> t_columns example_table = print_history_columns
   \<and> ''status'' \<notin> set [''url'']
   \<and> execute (Some (InsertInto ''print_history'' [''url''])) [Text ''https://example.com/a.pdf'']
        (conn example_manager)
      = Inr (connect example_db_defaulted ''2025-01-01 00:00:00'',
             \<lparr>lastrowid = Some 1, rowcount = 1, fetched = []\<rparr>)
   \<and> execute (Some (InsertInto ''print_history'' insert_job))
        [Text ''https://example.com/a.pdf'', Text ''label'',
         Text ''label:https://example.com/a.pdf'', Text ''processing''] (conn example_manager)
      = Inr (connect example_db_after ''2025-01-01 00:00:00'',
             \<lparr>lastrowid = Some 1, rowcount = 1, fetched = []\<rparr>)
   \<and> worker_thread example_manager = Running \<and> 0 < (\<lambda>t::nat. 1::nat) 5
   \<and> map (\<lambda>r. cell example_table r ''status'')
        (rows_of ''print_history'' (connect example_db_defaulted ''2025-01-01 00:00:00''))
      = [Text ''completed'']
   \<and> save_to_history (\<lambda>t. 1) ''https://example.com/a.pdf'' ''label''
        ''label:https://example.com/a.pdf'' example_manager
      = example_manager_after
   \<and> map (\<lambda>r. cell example_table r ''status'')
        (rows_of ''print_history'' (conn example_manager_after))
      = [Text ''processing'']
   \<and> save_to_history (\<lambda>t. 0) ''https://example.com/a.pdf'' ''label''
        ''label:https://example.com/a.pdf'' example_manager
      = example_manager\<lparr>operation_queue := [Some (job_request ''https://example.com/a.pdf''
          ''label'' ''label:https://example.com/a.pdf'')]\<rparr>"
proof -
  have r: "worker_thread example_manager = Running"
    by (simp add: example_manager_def started_def)
  have p: "0 < (\<lambda>t::nat. 1::nat) 5" by simp
  have t: "find_table ''print_history'' (tables (conn example_manager)) = Some example_table"
    by (simp add: example_manager_def started_def connect_def example_db_def
        find_table_def example_table_def)
  have cols: "t_columns example_table = print_history_columns"
    by (simp add: example_table_def)
  have s: "''status'' \<notin> set [''url'']" by simp
  have rows0: "rows_of ''print_history'' (conn example_manager) = []"
    using t by (simp add: rows_of_def example_table_def)
  have same: "example_manager\<lparr>operation_queue := [], result_queue := []\<rparr> = example_manager"
    by (simp add: example_manager_def started_def)
  have after: "example_manager\<lparr>conn := connect example_db_after ''2025-01-01 00:00:00''\<rparr>
      = example_manager_after"
    by (simp add: example_manager_def example_manager_after_def started_def)
  have ca: "conn example_manager_after = connect example_db_after ''2025-01-01 00:00:00''"
    by (simp add: example_manager_after_def started_def)
  note w = status_default_is_completed [OF t cols s example_insert_url_only example_insert r p,
      where queue = "[]" and rest = "[]" and replies = "[]"]
  from w [THEN conjunct1] have a: "map (\<lambda>r. cell example_table r ''status'')
        (rows_of ''print_history'' (connect example_db_defaulted ''2025-01-01 00:00:00''))
      = [Text ''completed'']"
    by (auto simp: rows0)
  from w [THEN conjunct2, THEN conjunct1] have b: "map (\<lambda>r. cell example_table r ''status'')
        (rows_of ''print_history'' (conn example_manager_after))
      = [Text ''processing'']"
    by (auto simp: rows0 ca)
  from w [THEN conjunct2, THEN conjunct2, THEN conjunct2]
  have c: "save_to_history (\<lambda>t. 1) ''https://example.com/a.pdf'' ''label''
        ''label:https://example.com/a.pdf'' example_manager = example_manager_after"
    by (simp add: same after)
  from w [THEN conjunct2, THEN conjunct2, THEN conjunct1]
  have d: "save_to_history (\<lambda>t. 0) ''https://example.com/a.pdf'' ''label''
        ''label:https://example.com/a.pdf'' example_manager
      = example_manager\<lparr>operation_queue := [Some (job_request ''https://example.com/a.pdf''
          ''label'' ''label:https://example.com/a.pdf'')]\<rparr>"
    using same by (simp add: example_manager_def started_def)
  from a b c d t cols s example_insert_url_only example_insert r p show ?thesis by simp
qed

end
